theory Spec2Isabelle
  imports Complex_Main "HOL-Library.AList"
begin

section \<open>Python strings\<close>

text \<open>
  A Python \<open>str\<close> is modelled as a \<open>string\<close> whose characters are the code points
  below 256. On that range \<open>str.isspace\<close>, and with it \<open>str.strip()\<close> and the
  \<open>\s\<close> of module \<open>re\<close>, holds for the code points 9 to 13, 28 to 32, 133 and 160,
  and the decimal digits accepted by \<open>int\<close>, \<open>float\<close> and \<open>\d\<close> are \<open>0\<close> to \<open>9\<close>.
\<close>

definition isspace :: "char \<Rightarrow> bool" where
  "isspace c = (of_char c \<in> set [9, 10, 11, 12, 13, 28, 29, 30, 31, 32, 133, 160 :: nat])"

definition isdigit :: "char \<Rightarrow> bool" where
  "isdigit c = (48 \<le> (of_char c :: nat) \<and> (of_char c :: nat) \<le> 57)"

definition lstrip :: "string \<Rightarrow> string" where
  "lstrip s = dropWhile isspace s"

definition rstrip :: "string \<Rightarrow> string" where
  "rstrip s = rev (dropWhile isspace (rev s))"

definition strip :: "string \<Rightarrow> string" where
  "strip s = lstrip (rstrip s)"

text \<open>\<open>s.lstrip(',')\<close> and \<open>s.rstrip(',')\<close>: the stripped characters are given.\<close>

definition lstrip_chars :: "string \<Rightarrow> string \<Rightarrow> string" where
  "lstrip_chars cs s = dropWhile (\<lambda>c. c \<in> set cs) s"

definition rstrip_chars :: "string \<Rightarrow> string \<Rightarrow> string" where
  "rstrip_chars cs s = rev (dropWhile (\<lambda>c. c \<in> set cs) (rev s))"

definition startswith :: "string \<Rightarrow> string \<Rightarrow> bool" where
  "startswith s p = (take (length p) s = p)"

definition endswith :: "string \<Rightarrow> string \<Rightarrow> bool" where
  "endswith s p = (length p \<le> length s \<and> drop (length s - length p) s = p)"

text \<open>
  \<open>s.split(sep, 1)\<close> for a one-character separator: one part when the separator
  does not occur, otherwise the text before its first occurrence and the text after it.
\<close>

definition split1 :: "char \<Rightarrow> string \<Rightarrow> string list" where
  "split1 sep s =
     (case dropWhile (\<lambda>c. c \<noteq> sep) s of
        [] \<Rightarrow> [s]
      | _ # rest \<Rightarrow> [takeWhile (\<lambda>c. c \<noteq> sep) s, rest])"

text \<open>
  \<open>f.readlines()\<close> on the text of a file (already decoded, line ends translated to
  \<open>\n\<close>): every line keeps its line end, the last line may have none.
\<close>

fun readlines :: "string \<Rightarrow> string list" where
  "readlines [] = []"
| "readlines (c # cs) =
     (if c = CHR 0x0A then [c] # readlines cs
      else (case readlines cs of [] \<Rightarrow> [[c]] | l # ls \<Rightarrow> (c # l) # ls))"

section \<open>The builtins \<open>int\<close> and \<open>float\<close> on strings\<close>

datatype exn =
    OSError
  | UnicodeDecodeError
  | KeyError
  | ValueError
  | EmptyDataError
  | ParserError
  | OtherError nat

text \<open>
  A \<open>digitpart\<close> of the Python grammar is \<open>digit (["_"] digit)*\<close>.
  \<open>digits_more\<close> reads what follows the first digit and returns the digits read
  (underscores removed) and the text left.
\<close>

fun digits_more :: "string \<Rightarrow> string \<times> string" where
  "digits_more [] = ([], [])"
| "digits_more [c] = (if isdigit c then ([c], []) else ([], [c]))"
| "digits_more (c # d # r) =
     (if isdigit c then (case digits_more (d # r) of (ds, rest) \<Rightarrow> (c # ds, rest))
      else if c = CHR ''_'' \<and> isdigit d then digits_more (d # r)
      else ([], c # d # r))"

definition digitpart :: "string \<Rightarrow> (string \<times> string) option" where
  "digitpart s =
     (case s of
        [] \<Rightarrow> None
      | c # cs \<Rightarrow>
          if isdigit c then (case digits_more cs of (ds, rest) \<Rightarrow> Some (c # ds, rest))
          else None)"

definition digit_val :: "char \<Rightarrow> int" where
  "digit_val c = of_char c - 48"

definition digits_val :: "string \<Rightarrow> int" where
  "digits_val ds = foldl (\<lambda>n c. 10 * n + digit_val c) 0 ds"

text \<open>An optional sign: \<open>True\<close> for \<open>-\<close>.\<close>

definition take_sign :: "string \<Rightarrow> bool \<times> string" where
  "take_sign s =
     (case s of
        [] \<Rightarrow> (False, [])
      | c # cs \<Rightarrow>
          if c = CHR ''-'' then (True, cs)
          else if c = CHR ''+'' then (False, cs)
          else (False, c # cs))"

text \<open>
  \<open>int(s)\<close> in base 10: surrounding whitespace, an optional sign, one \<open>digitpart\<close>
  and nothing else; anything else raises \<open>ValueError\<close>. (The interpreter's limit on
  the number of digits, 4300 by default in recent versions, is not part of the model.)
\<close>

definition py_int :: "string \<Rightarrow> exn + int" where
  "py_int s =
     (case take_sign (strip s) of
        (neg, t) \<Rightarrow>
          (case digitpart t of
             None \<Rightarrow> Inl ValueError
           | Some (ds, rest) \<Rightarrow>
               if rest = [] then Inr (if neg then - digits_val ds else digits_val ds)
               else Inl ValueError))"

text \<open>
  A Python \<open>float\<close> is an IEEE 754 binary64 value: a finite value (kept as the rational
  number it denotes), negative zero, an infinity (\<open>True\<close> for the negative one) or
  not-a-number.
\<close>

datatype pyfloat = Finite rat | NegZero | Infinity bool | NaN

definition pow2 :: "int \<Rightarrow> rat" where
  "pow2 k = (if 0 \<le> k then 2 ^ nat k else 1 / 2 ^ nat (- k))"

text \<open>The number of binary digits of a positive integer.\<close>

function bitlen :: "int \<Rightarrow> int" where
  "bitlen n = (if n \<le> 0 then 0 else 1 + bitlen (n div 2))"
  by pat_completeness auto
termination
  by (relation "measure nat") auto

declare bitlen.simps [simp del]

text \<open>For positive \<open>a\<close> and \<open>b\<close>, the \<open>e\<close> with \<open>2 ^ e \<le> a / b < 2 ^ (e + 1)\<close>.\<close>

definition floor_log2 :: "int \<Rightarrow> int \<Rightarrow> int" where
  "floor_log2 a b =
     (let e0 = bitlen a - bitlen b
      in if pow2 e0 \<le> Fract a b then e0 else e0 - 1)"

definition round_half_even :: "rat \<Rightarrow> int" where
  "round_half_even x =
     (let f = \<lfloor>x\<rfloor>; r = x - of_int f
      in if r < 1 / 2 then f else if 1 / 2 < r then f + 1 else if even f then f else f + 1)"

text \<open>
  The binary64 value nearest to \<open>a / b\<close> (ties to even), as the interpreter's
  correctly rounded conversion gives it: 53 significant bits, least exponent
  \<open>-1074\<close>, and an infinity from \<open>2 ^ 1024\<close> on.
\<close>

definition round_binary64 :: "bool \<Rightarrow> int \<Rightarrow> int \<Rightarrow> pyfloat" where
  "round_binary64 neg a b =
     (if a = 0 then (if neg then NegZero else Finite 0)
      else
        let q = Fract a b;
            e = floor_log2 a b;
            p = max (e - 52) (- 1074);
            m = round_half_even (q / pow2 p);
            v = of_int m * pow2 p
        in if pow2 1024 \<le> v then Infinity neg
           else if v = 0 then (if neg then NegZero else Finite 0)
           else Finite (if neg then - v else v))"

definition lower :: "char \<Rightarrow> char" where
  "lower c =
     (if 65 \<le> (of_char c :: nat) \<and> (of_char c :: nat) \<le> 90
      then char_of (of_char c + 32 :: nat) else c)"

text \<open>
  \<open>float(s)\<close>: surrounding whitespace, an optional sign, and then \<open>inf\<close>,
  \<open>infinity\<close> or \<open>nan\<close> in any case, or a number
  \<open>[digitpart] "." digitpart | digitpart ["."]\<close> with an optional exponent
  \<open>("e" | "E") [sign] digitpart\<close>; anything else raises \<open>ValueError\<close>.
\<close>

definition py_float :: "string \<Rightarrow> exn + pyfloat" where
  "py_float s =
     (case take_sign (strip s) of
        (neg, u) \<Rightarrow>
          if map lower u = ''inf'' \<or> map lower u = ''infinity'' then Inr (Infinity neg)
          else if map lower u = ''nan'' then Inr NaN
          else
            (case (case digitpart u of Some (ds, r) \<Rightarrow> (ds, r) | None \<Rightarrow> ([], u)) of
               (ip, r1) \<Rightarrow>
                 (case (case r1 of
                          [] \<Rightarrow> ([], r1)
                        | c # r \<Rightarrow>
                            if c = CHR ''.''
                            then (case digitpart r of
                                    Some (ds, r') \<Rightarrow> (ds, r')
                                  | None \<Rightarrow> ([], r))
                            else ([], r1)) of
                    (fp, r2) \<Rightarrow>
                      if ip @ fp = [] then Inl ValueError
                      else
                        (case (case r2 of
                                 [] \<Rightarrow> Some (0, [])
                               | c # r \<Rightarrow>
                                   if c = CHR ''e'' \<or> c = CHR ''E''
                                   then (case take_sign r of
                                           (eneg, r') \<Rightarrow>
                                             (case digitpart r' of
                                                None \<Rightarrow> None
                                              | Some (es, r'') \<Rightarrow>
                                                  Some (if eneg then - digits_val es
                                                        else digits_val es, r'')))
                                   else Some (0, r2)) of
                           None \<Rightarrow> Inl ValueError
                         | Some (ex, r3) \<Rightarrow>
                             if r3 \<noteq> [] then Inl ValueError
                             else
                               let e10 = ex - int (length fp);
                                   mant = digits_val (ip @ fp)
                               in Inr (round_binary64 neg (mant * 10 ^ nat e10)
                                         (10 ^ nat (- e10)))))))"

section \<open>The stats map (section 3 of a file)\<close>

text \<open>A stats value is a string, an integer or a float.\<close>

datatype stats_value = VStr string | VInt int | VFloat pyfloat

type_synonym stats_dict = "(string \<times> stats_value) list"

text \<open>
  Lines 93 to 100 of the loader: a non-empty value is converted with \<open>float\<close> when
  it contains a dot and with \<open>int\<close> otherwise, and stays the string when the
  conversion raises (\<open>int\<close> and \<open>float\<close> raise nothing but \<open>ValueError\<close>, which
  the handler catches).
\<close>

definition coerce :: "string \<Rightarrow> stats_value" where
  "coerce v =
     (if v \<noteq> [] then
        (if CHR ''.'' \<in> set v
         then (case py_float v of Inr x \<Rightarrow> VFloat x | Inl e \<Rightarrow> VStr v)
         else (case py_int v of Inr n \<Rightarrow> VInt n | Inl e \<Rightarrow> VStr v))
      else VStr v)"

text \<open>
  Lines 89 and 91: \<open>value = parts[1].strip()\<close>, then
  \<open>value = value.strip().lstrip(',').rstrip(',').strip()\<close>.
\<close>

definition clean_value :: "string \<Rightarrow> string" where
  "clean_value r = strip (rstrip_chars '','' (lstrip_chars '','' (strip (strip r))))"

text \<open>
  The body of the loop of lines 83 to 101 for one line. A Python \<open>dict\<close> keeps its
  keys in the order of their first insertion, and an assignment to a key it has
  replaces the value in place: \<open>AList.update\<close>.
\<close>

definition stats_line :: "string \<Rightarrow> stats_dict \<Rightarrow> stats_dict" where
  "stats_line l d =
     (let line = strip l in
      if line \<noteq> [] \<and> CHR '':'' \<in> set line then
        (let parts = split1 CHR '':'' line in
         if length parts = 2 then
           (let key = strip (parts ! 0);
                v = clean_value (parts ! 1)
            in AList.update key (coerce v) d)
         else d)
      else d)"

definition parse_stats :: "string list \<Rightarrow> nat option \<Rightarrow> stats_dict" where
  "parse_stats lines section2_end =
     (case section2_end of
        None \<Rightarrow> []
      | Some k \<Rightarrow> foldl (\<lambda>d l. stats_line l d) [] (drop k lines))"

section \<open>Section boundaries\<close>

text \<open>
  The loop of lines 44 to 49, with the index \<open>i\<close> of the line at hand and the two
  boundaries found so far; the \<open>break\<close> ends the recursion.
\<close>

fun scan :: "nat \<Rightarrow> string list \<Rightarrow> nat option \<Rightarrow> nat option \<Rightarrow> nat option \<times> nat option" where
  "scan i [] section1_end section2_end = (section1_end, section2_end)"
| "scan i (l # ls) section1_end section2_end =
     (let s1 = (if startswith (strip l) ''Weapon,'' \<and> section1_end = None then Some i
                else section1_end)
      in if startswith (strip l) ''Kills:,'' \<and> section2_end = None then (s1, Some i)
         else scan (Suc i) ls s1 section2_end)"

definition section_bounds :: "string list \<Rightarrow> nat option \<times> nat option" where
  "section_bounds lines = scan 0 lines None None"

section \<open>Tables and \<open>pandas.read_csv\<close>\<close>

text \<open>
  A \<open>DataFrame\<close> is modelled by its column names and its rows; a cell is the text of
  its field, or \<open>None\<close> for a missing value (\<open>NaN\<close>). The conversion of a column of
  numerals to numbers and the row labels are not part of the model.
\<close>

type_synonym cell = "string option"

record dataframe =
  columns :: "string list"
  rows :: "cell list list"

text \<open>\<open>pd.DataFrame()\<close>: no columns and no rows.\<close>

definition empty_frame :: dataframe where
  "empty_frame = \<lparr>columns = [], rows = []\<rparr>"

text \<open>\<open>df.dropna(how='all')\<close> drops the rows all of whose cells are missing.\<close>

definition dropna_all :: "dataframe \<Rightarrow> dataframe" where
  "dropna_all df = df\<lparr>rows := filter (\<lambda>r. \<not> list_all (\<lambda>c. c = None) r) (rows df)\<rparr>"

text \<open>
  \<open>pandas\<close> is a library outside the repository. The model below fixes what
  \<open>read_csv(path, skiprows=k, nrows=n)\<close> does with its default options on text without
  double quotes whose first data row has no more fields than the header; all it
  does elsewhere is left open in a record of parameters, over which every theorem is
  universally quantified:
  \<^item> \<open>pd_other\<close>: the result on text with a double quote (quoted fields), and when
    the first data row has more fields than the header (these become row labels);
  \<^item> \<open>pd_names\<close>: the column names given to a header with an empty name, or whose
    repeated names cannot simply be numbered;
  \<^item> \<open>pd_na\<close>: the non-empty field texts read as missing values (\<open>NA\<close>, \<open>NaN\<close>, \<dots>;
    the list depends on the version).
\<close>

record pandas =
  pd_other :: "string \<Rightarrow> nat \<Rightarrow> int \<Rightarrow> exn + dataframe"
  pd_names :: "string list \<Rightarrow> string list"
  pd_na :: "string \<Rightarrow> bool"

text \<open>A line of spaces and tabs only is skipped by the tokenizer (\<open>skip_blank_lines\<close>).\<close>

definition blank_line :: "string \<Rightarrow> bool" where
  "blank_line l = list_all (\<lambda>c. c = CHR '' '' \<or> c = CHR 0x09) l"

definition chomp :: "string \<Rightarrow> string" where
  "chomp l = (if l \<noteq> [] \<and> last l = CHR 0x0A then butlast l else l)"

text \<open>The fields of a line without quotes: the texts between the commas.\<close>

fun split_fields :: "string \<Rightarrow> string list" where
  "split_fields [] = [[]]"
| "split_fields (c # cs) =
     (if c = CHR '','' then [] # split_fields cs
      else (case split_fields cs of [] \<Rightarrow> [[c]] | f # fs \<Rightarrow> (c # f) # fs))"

function show_nat :: "nat \<Rightarrow> string" where
  "show_nat n =
     (if n < 10 then [char_of (48 + n)] else show_nat (n div 10) @ [char_of (48 + n mod 10)])"
  by pat_completeness auto
termination
  by (relation "measure id") auto

declare show_nat.simps [simp del]

text \<open>
  Repeated column names are numbered: the second \<open>x\<close> becomes \<open>x.1\<close>, the third
  \<open>x.2\<close>. \<open>seen\<close> holds the names to the left.
\<close>

fun mangle :: "string list \<Rightarrow> string list \<Rightarrow> string list" where
  "mangle seen [] = []"
| "mangle seen (x # xs) =
     (if count_list seen x = 0 then x else x @ ''.'' @ show_nat (count_list seen x))
     # mangle (seen @ [x]) xs"

definition column_names :: "pandas \<Rightarrow> string list \<Rightarrow> string list" where
  "column_names pd names =
     (if [] \<notin> set names \<and> distinct (mangle [] names) then mangle [] names
      else pd_names pd names)"

definition to_cell :: "pandas \<Rightarrow> string \<Rightarrow> cell" where
  "to_cell pd f = (if f = [] \<or> pd_na pd f then None else Some f)"

text \<open>A row with fewer fields than the header is filled up with missing values.\<close>

definition to_row :: "pandas \<Rightarrow> nat \<Rightarrow> string list \<Rightarrow> cell list" where
  "to_row pd width fs = map (to_cell pd) fs @ replicate (width - length fs) None"

text \<open>
  \<open>read_csv\<close> on the text of the file: the first \<open>skiprows\<close> lines are skipped,
  then blank lines are skipped wherever they stand; the first line left is the header
  (\<open>EmptyDataError\<close> when there is none) and the next \<open>nrows\<close> lines left are the data
  rows, so a blank line does not count as a row. A later row with more fields than the
  header raises \<open>ParserError\<close>; a negative \<open>nrows\<close> raises \<open>ValueError\<close>. Never more
  than \<open>nrows\<close> rows are returned.
\<close>

definition read_csv :: "pandas \<Rightarrow> string \<Rightarrow> nat \<Rightarrow> int \<Rightarrow> exn + dataframe" where
  "read_csv pd content skiprows nrows =
     (if nrows < 0 then Inl ValueError
      else if CHR 0x22 \<in> set content then
        (case pd_other pd content skiprows nrows of
           Inl e \<Rightarrow> Inl e
         | Inr df \<Rightarrow> Inr (df\<lparr>rows := take (nat nrows) (rows df)\<rparr>))
      else
        (case filter (\<lambda>l. \<not> blank_line l) (drop skiprows (map chomp (readlines content))) of
           [] \<Rightarrow> Inl EmptyDataError
         | h # body \<Rightarrow>
             (let names = split_fields h;
                  recs = map split_fields (take (nat nrows) body)
              in if recs \<noteq> [] \<and> length names < length (hd recs) then
                   (case pd_other pd content skiprows nrows of
                      Inl e \<Rightarrow> Inl e
                    | Inr df \<Rightarrow> Inr (df\<lparr>rows := take (nat nrows) (rows df)\<rparr>))
                 else if list_ex (\<lambda>r. length names < length r) recs then Inl ParserError
                 else Inr \<lparr>columns = column_names pd names,
                           rows = map (to_row pd (length names)) recs\<rparr>)))"

section \<open>The parser of one file\<close>

text \<open>
  The files: a path gives the text of its file, or the exception that opening or
  decoding it raises. A directory gives the names of its entries, or an exception.
\<close>

record world =
  files :: "string \<Rightarrow> exn + string"
  listdir :: "string \<Rightarrow> exn + string list"

text \<open>
  Every function that reads a file returns, beside its result, the paths it opened,
  in order. \<open>pd.read_csv(filepath, ...)\<close> is given the path and opens the file itself.
\<close>

definition pd_read_csv ::
  "pandas \<Rightarrow> world \<Rightarrow> string \<Rightarrow> nat \<Rightarrow> int \<Rightarrow> (exn + dataframe) \<times> string list" where
  "pd_read_csv pd w filepath skiprows nrows =
     (case files w filepath of
        Inl e \<Rightarrow> (Inl e, [filepath])
      | Inr content \<Rightarrow> (read_csv pd content skiprows nrows, [filepath]))"

text \<open>Lines 60 to 64: the handler of the first table.\<close>

definition main_fallback :: "pandas \<Rightarrow> world \<Rightarrow> string \<Rightarrow> dataframe \<times> string list" where
  "main_fallback pd w filepath =
     (case pd_read_csv pd w filepath 0 0 of
        (Inr df, opened) \<Rightarrow> (df, opened)
      | (Inl e, opened) \<Rightarrow> (empty_frame, opened))"

text \<open>Lines 52 to 66: the event table.\<close>

definition read_main :: "pandas \<Rightarrow> world \<Rightarrow> string \<Rightarrow> nat option \<Rightarrow> dataframe \<times> string list" where
  "read_main pd w filepath section1_end =
     (case section1_end of
        None \<Rightarrow> (empty_frame, [])
      | Some s1 \<Rightarrow>
          if 0 < s1 then
            (case pd_read_csv pd w filepath 0 (int s1 - 1) of
               (Inr main_df, o1) \<Rightarrow>
                 if length (rows main_df) = 0 then
                   (case pd_read_csv pd w filepath 0 0 of
                      (Inr df0, o2) \<Rightarrow> (df0, o1 @ o2)
                    | (Inl e, o2) \<Rightarrow>
                        (case main_fallback pd w filepath of (df, o3) \<Rightarrow> (df, o1 @ o2 @ o3)))
                 else (main_df, o1)
             | (Inl e, o1) \<Rightarrow>
                 (case main_fallback pd w filepath of (df, o3) \<Rightarrow> (df, o1 @ o3)))
          else (empty_frame, []))"

text \<open>Lines 69 to 78: the weapon table.\<close>

definition read_weapon ::
  "pandas \<Rightarrow> world \<Rightarrow> string \<Rightarrow> nat option \<Rightarrow> nat option \<Rightarrow> dataframe \<times> string list" where
  "read_weapon pd w filepath section1_end section2_end =
     (case section1_end of
        None \<Rightarrow> (empty_frame, [])
      | Some s1 \<Rightarrow>
          (case section2_end of
             None \<Rightarrow> (empty_frame, [])
           | Some s2 \<Rightarrow>
               (case pd_read_csv pd w filepath s1 (int s2 - int s1 - 1) of
                  (Inr weapon_df, opened) \<Rightarrow> (dropna_all weapon_df, opened)
                | (Inl e, opened) \<Rightarrow> (empty_frame, opened))))"

text \<open>
  \<open>parse_kovaaks_csv\<close>: the result is the exception raised, or the three parts; the
  second component lists the paths opened.
\<close>

definition parse_kovaaks_csv ::
  "pandas \<Rightarrow> world \<Rightarrow> string \<Rightarrow> (exn + dataframe \<times> dataframe \<times> stats_dict) \<times> string list" where
  "parse_kovaaks_csv pd w filepath =
     (case files w filepath of
        Inl e \<Rightarrow> (Inl e, [filepath])
      | Inr content \<Rightarrow>
          (let lines = readlines content in
           case section_bounds lines of
             (section1_end, section2_end) \<Rightarrow>
               (case read_main pd w filepath section1_end of
                  (main_df, o1) \<Rightarrow>
                    (case read_weapon pd w filepath section1_end section2_end of
                       (weapon_df, o2) \<Rightarrow>
                         (Inr (main_df, weapon_df, parse_stats lines section2_end),
                          [filepath] @ o1 @ o2)))))"

section \<open>The file name pattern\<close>

text \<open>
  \<open>re.match\<close> with the pattern of line 128,
  \<^verbatim>\<open>(.*?)\s*-\s*Challenge\s*-\s*(\d{4}\.\d{2}\.\d{2}-\d{2}\.\d{2}\.\d{2})\s*Stats\.csv\<close>,
  matches at the start of the name and lets any text follow the match. Each function
  below matches one piece at the start of the text and returns the text left.
\<close>

definition lit :: "string \<Rightarrow> string \<Rightarrow> string option" where
  "lit p s = (if startswith s p then Some (drop (length p) s) else None)"

text \<open>
  \<open>\s*\<close> takes all the whitespace there is. Every \<open>\s*\<close> of the pattern is followed
  by a character that is no whitespace, so giving some whitespace back never helps.
\<close>

definition ws :: "string \<Rightarrow> string" where
  "ws s = dropWhile isspace s"

text \<open>\<open>\d{n}\<close>.\<close>

definition digits :: "nat \<Rightarrow> string \<Rightarrow> string option" where
  "digits n s =
     (if n \<le> length s \<and> list_all isdigit (take n s) then Some (drop n s) else None)"

text \<open>The second group, \<open>\d{4}\.\d{2}\.\d{2}-\d{2}\.\d{2}\.\d{2}\<close>: the text left after it.\<close>

definition timestamp :: "string \<Rightarrow> string option" where
  "timestamp s =
     Option.bind (digits 4 s) (\<lambda>s.
     Option.bind (lit ''.'' s) (\<lambda>s.
     Option.bind (digits 2 s) (\<lambda>s.
     Option.bind (lit ''.'' s) (\<lambda>s.
     Option.bind (digits 2 s) (\<lambda>s.
     Option.bind (lit ''-'' s) (\<lambda>s.
     Option.bind (digits 2 s) (\<lambda>s.
     Option.bind (lit ''.'' s) (\<lambda>s.
     Option.bind (digits 2 s) (\<lambda>s.
     Option.bind (lit ''.'' s) (\<lambda>s.
     digits 2 s))))))))))"

text \<open>
  All of the pattern after the first group, at the start of \<open>s\<close>: the text of the
  second group when it matches. The second group has 19 characters.
\<close>

definition match_tail :: "string \<Rightarrow> string option" where
  "match_tail s =
     Option.bind (lit ''-'' (ws s)) (\<lambda>s.
     Option.bind (lit ''Challenge'' (ws s)) (\<lambda>s.
     Option.bind (lit ''-'' (ws s)) (\<lambda>s.
     (let t = ws s in
      Option.bind (timestamp t) (\<lambda>s.
      Option.bind (lit ''Stats.csv'' (ws s)) (\<lambda>s.
      Some (take 19 t)))))))"

text \<open>
  The first group \<open>(.*?)\<close> is lazy: it is the shortest text without a line feed after
  which the rest of the pattern matches. \<open>pre\<close> holds the characters given to the
  group so far, last first. The result is \<open>(match.group(1), match.group(2))\<close>.
\<close>

fun match_from :: "string \<Rightarrow> string \<Rightarrow> (string \<times> string) option" where
  "match_from pre s =
     (case match_tail s of
        Some g2 \<Rightarrow> Some (rev pre, g2)
      | None \<Rightarrow>
          (case s of
             [] \<Rightarrow> None
           | c # cs \<Rightarrow> if c = CHR 0x0A then None else match_from (c # pre) cs))"

definition re_match :: "string \<Rightarrow> (string \<times> string) option" where
  "re_match filename = match_from [] filename"

section \<open>The aggregator\<close>

text \<open>
  A \<open>collections.defaultdict\<close>: its \<open>default_factory\<close> (here the value the factory
  returns; \<open>None\<close> when there is no factory) and its entries in insertion order.
  \<open>d[k]\<close> on a missing key calls the factory, stores what it returns under \<open>k\<close> and
  returns it; without a factory it raises \<open>KeyError\<close>.
\<close>

record 'v defaultdict =
  default_factory :: "'v option"
  entries :: "(string \<times> 'v) list"

definition dd_getitem :: "'v defaultdict \<Rightarrow> string \<Rightarrow> (exn + 'v) \<times> 'v defaultdict" where
  "dd_getitem d k =
     (case map_of (entries d) k of
        Some v \<Rightarrow> (Inr v, d)
      | None \<Rightarrow>
          (case default_factory d of
             None \<Rightarrow> (Inl KeyError, d)
           | Some v \<Rightarrow> (Inr v, d\<lparr>entries := entries d @ [(k, v)]\<rparr>)))"

definition dd_setitem :: "'v defaultdict \<Rightarrow> string \<Rightarrow> 'v \<Rightarrow> 'v defaultdict" where
  "dd_setitem d k v = d\<lparr>entries := AList.update k v (entries d)\<rparr>"

text \<open>
  \<open>d[task][date] = x\<close>: the inner dictionary is looked up (and made when missing),
  then changed in place.
\<close>

definition set_nested ::
  "'v defaultdict defaultdict \<Rightarrow> string \<Rightarrow> string \<Rightarrow> 'v \<Rightarrow> exn + 'v defaultdict defaultdict" where
  "set_nested d task date x =
     (case dd_getitem d task of
        (Inl e, d') \<Rightarrow> Inl e
      | (Inr inner, d') \<Rightarrow> Inr (dd_setitem d' task (dd_setitem inner date x)))"

text \<open>What the aggregator prints.\<close>

datatype message =
    Processed nat
  | ErrorProcessing string exn
  | TotalProcessed nat
  | UniqueTasks nat

record aggregate =
  main_data :: "dataframe defaultdict defaultdict"
  weapon_data :: "dataframe defaultdict defaultdict"
  stats_data :: "stats_dict defaultdict defaultdict"
  processed :: nat
  printed :: "message list"

text \<open>Lines 120 to 124.\<close>

definition initial :: aggregate where
  "initial =
     \<lparr>main_data =
        \<lparr>default_factory = Some \<lparr>default_factory = Some empty_frame, entries = []\<rparr>,
         entries = []\<rparr>,
      weapon_data =
        \<lparr>default_factory = Some \<lparr>default_factory = Some empty_frame, entries = []\<rparr>,
         entries = []\<rparr>,
      stats_data =
        \<lparr>default_factory = Some \<lparr>default_factory = Some [], entries = []\<rparr>,
         entries = []\<rparr>,
      processed = 0,
      printed = []\<rparr>"

text \<open>\<open>os.path.join(csv_dir, filename)\<close> on a POSIX system.\<close>

definition path_join :: "string \<Rightarrow> string \<Rightarrow> string" where
  "path_join dir name =
     (if startswith name ''/'' then name
      else if dir = [] \<or> last dir = CHR ''/'' then dir @ name
      else dir @ ''/'' @ name)"

text \<open>Lines 145 to 147: the handler of the \<open>try\<close>.\<close>

definition report :: "string \<Rightarrow> exn \<Rightarrow> aggregate \<Rightarrow> aggregate" where
  "report filename e st = st\<lparr>printed := printed st @ [ErrorProcessing filename e]\<rparr>"

text \<open>Lines 136 to 144: the body of the \<open>try\<close> for a name that matched.\<close>

definition load_file ::
  "pandas \<Rightarrow> world \<Rightarrow> string \<Rightarrow> string \<Rightarrow> string \<Rightarrow> string \<Rightarrow> aggregate \<Rightarrow> aggregate" where
  "load_file pd w filename filepath task_type date st =
     (case fst (parse_kovaaks_csv pd w filepath) of
        Inl e \<Rightarrow> report filename e st
      | Inr (main_df, weapon_df, stats) \<Rightarrow>
          (case set_nested (main_data st) task_type date main_df of
             Inl e \<Rightarrow> report filename e st
           | Inr md \<Rightarrow>
               (case set_nested (weapon_data st) task_type date weapon_df of
                  Inl e \<Rightarrow> report filename e (st\<lparr>main_data := md\<rparr>)
                | Inr wd \<Rightarrow>
                    (case set_nested (stats_data st) task_type date stats of
                       Inl e \<Rightarrow> report filename e (st\<lparr>main_data := md, weapon_data := wd\<rparr>)
                     | Inr sd \<Rightarrow>
                         (let i = processed st + 1 in
                          st\<lparr>main_data := md, weapon_data := wd, stats_data := sd,
                             processed := i,
                             printed := printed st @ (if i mod 10 = 0 then [Processed i] else [])\<rparr>)))))"

text \<open>Lines 126 to 147: the body of the loop for one directory entry.\<close>

definition process_entry :: "pandas \<Rightarrow> world \<Rightarrow> string \<Rightarrow> aggregate \<Rightarrow> string \<Rightarrow> aggregate" where
  "process_entry pd w csv_dir st filename =
     (if endswith filename ''.csv'' then
        (case re_match filename of
           None \<Rightarrow> st
         | Some (g1, g2) \<Rightarrow>
             load_file pd w filename (path_join csv_dir filename) (strip g1) g2 st)
      else st)"

text \<open>
  \<open>load_all_kovaaks_data\<close>: the exception of \<open>os.listdir\<close>, or the three indices and
  the lines printed.
\<close>

definition load_all_kovaaks_data ::
  "pandas \<Rightarrow> world \<Rightarrow> string \<Rightarrow>
   exn + (dataframe defaultdict defaultdict \<times> dataframe defaultdict defaultdict
          \<times> stats_dict defaultdict defaultdict) \<times> message list" where
  "load_all_kovaaks_data pd w csv_dir =
     (case listdir w csv_dir of
        Inl e \<Rightarrow> Inl e
      | Inr names \<Rightarrow>
          (let st = foldl (process_entry pd w csv_dir) initial names in
           Inr ((main_data st, weapon_data st, stats_data st),
                printed st @ [TotalProcessed (processed st),
                              UniqueTasks (length (entries (main_data st)))])))"

section \<open>Notions used to state the properties\<close>

text \<open>The key and the cleaned value of a stats line, as lines 86 to 91 compute them.\<close>

definition stat_key :: "string \<Rightarrow> string" where
  "stat_key l = strip (split1 CHR '':'' (strip l) ! 0)"

definition stat_value :: "string \<Rightarrow> string" where
  "stat_value l = clean_value (split1 CHR '':'' (strip l) ! 1)"

text \<open>The two tests of the boundary scan.\<close>

definition is_weapon :: "string \<Rightarrow> bool" where
  "is_weapon l = startswith (strip l) ''Weapon,''"

definition is_kills :: "string \<Rightarrow> bool" where
  "is_kills l = startswith (strip l) ''Kills:,''"

text \<open>The index of the first element with a property, if there is one.\<close>

fun first_index :: "('a \<Rightarrow> bool) \<Rightarrow> 'a list \<Rightarrow> nat option" where
  "first_index P [] = None"
| "first_index P (x # xs) = (if P x then Some 0 else map_option Suc (first_index P xs))"

text \<open>The key and value each line with a colon contributes, in the order of the lines.\<close>

definition stat_pairs :: "string list \<Rightarrow> (string \<times> stats_value) list" where
  "stat_pairs ls =
     map (\<lambda>l. (stat_key l, coerce (stat_value l))) (filter (\<lambda>l. CHR '':'' \<in> set (strip l)) ls)"

text \<open>
  One choice of what \<open>pandas\<close> does outside the model, for the examples: it rejects
  what the model leaves open, keeps the header's names and reads no text as missing.
\<close>

definition plain_pandas :: pandas where
  "plain_pandas = \<lparr>pd_other = (\<lambda>c k n. Inl ParserError), pd_names = (\<lambda>ns. ns), pd_na = (\<lambda>f. False)\<rparr>"

text \<open>A world with one readable file and no directory.\<close>

definition one_file :: "string \<Rightarrow> string \<Rightarrow> world" where
  "one_file path content =
     \<lparr>files = (\<lambda>p. if p = path then Inr content else Inl OSError),
      listdir = (\<lambda>d. Inl OSError)\<rparr>"

text \<open>
  Example files: an event section of a header line only; a file both of whose tables
  have a row with too many fields; a file without a \<open>Weapon,\<close> line.
\<close>

definition sample_header_only :: string where
  "sample_header_only = ''h1,h2\<newline>Weapon,Shots\<newline>pistol,10\<newline>Kills:,5\<newline>''"

definition sample_malformed :: string where
  "sample_malformed = ''a,b\<newline>1,2\<newline>3,4,5\<newline>Weapon,x\<newline>p,1\<newline>q,1,2\<newline>Kills:,5\<newline>''"

definition sample_stats_only :: string where
  "sample_stats_only = ''Kills:,5\<newline>Score: 10\<newline>note\<newline>Score: 20\<newline>''"

text \<open>
  Two more example files: a header that repeats a name; a blank line between the
  weapon row and the \<open>Kills:,\<close> line.
\<close>

definition sample_repeated_name :: string where
  "sample_repeated_name = ''a,a\<newline>Weapon,Shots\<newline>pistol,10\<newline>Kills:,5\<newline>''"

definition sample_blank_line :: string where
  "sample_blank_line =
     ''h1,h2\<newline>Weapon,Shots\<newline>pistol,10\<newline>\<newline>Kills:,5\<newline>Deaths:,0\<newline>''"

text \<open>
  The identity \<open>(task_type, date)\<close> lines 126 to 132 give a directory entry, if any.
\<close>

definition candidate :: "string \<Rightarrow> (string \<times> string) option" where
  "candidate filename =
     (if endswith filename ''.csv''
      then map_option (\<lambda>(g1, g2). (strip g1, g2)) (re_match filename)
      else None)"

text \<open>\<open>d[task][date]\<close> read without inserting anything: \<open>None\<close> for a missing key.\<close>

definition lookup2 :: "'v defaultdict defaultdict \<Rightarrow> string \<Rightarrow> string \<Rightarrow> 'v option" where
  "lookup2 d task date =
     (case map_of (entries d) task of
        None \<Rightarrow> None
      | Some inner \<Rightarrow> map_of (entries inner) date)"

text \<open>
  The directory entries that are candidates and parse without raising, in the order
  of the listing and with what they parse to; and the lines printed for those that
  raise.
\<close>

definition loaded ::
  "pandas \<Rightarrow> world \<Rightarrow> string \<Rightarrow> string list
   \<Rightarrow> ((string \<times> string) \<times> dataframe \<times> dataframe \<times> stats_dict) list" where
  "loaded pd w csv_dir names =
     concat (map (\<lambda>f.
       case candidate f of
         None \<Rightarrow> []
       | Some ident \<Rightarrow>
           (case fst (parse_kovaaks_csv pd w (path_join csv_dir f)) of
              Inl e \<Rightarrow> []
            | Inr r \<Rightarrow> [(ident, r)])) names)"

definition failures :: "pandas \<Rightarrow> world \<Rightarrow> string \<Rightarrow> string list \<Rightarrow> message list" where
  "failures pd w csv_dir names =
     concat (map (\<lambda>f.
       case candidate f of
         None \<Rightarrow> []
       | Some ident \<Rightarrow>
           (case fst (parse_kovaaks_csv pd w (path_join csv_dir f)) of
              Inl e \<Rightarrow> [ErrorProcessing f e]
            | Inr r \<Rightarrow> [])) names)"

definition is_error :: "message \<Rightarrow> bool" where
  "is_error m = (case m of ErrorProcessing f e \<Rightarrow> True | _ \<Rightarrow> False)"

text \<open>
  The shape of an index: its factory makes an empty inner dictionary with the factory
  of the value type, and every inner dictionary it holds has that factory.
\<close>

definition index_shape :: "'v \<Rightarrow> 'v defaultdict defaultdict \<Rightarrow> bool" where
  "index_shape v0 d =
     (default_factory d = Some \<lparr>default_factory = Some v0, entries = []\<rparr>
      \<and> list_all (\<lambda>(t, inner). default_factory inner = Some v0) (entries d))"

definition shaped :: "aggregate \<Rightarrow> bool" where
  "shaped st =
     (index_shape empty_frame (main_data st) \<and> index_shape empty_frame (weapon_data st)
      \<and> index_shape [] (stats_data st))"

text \<open>
  What auto-vivifying means for an index \<open>d\<close> with default value \<open>v0\<close>: looking up a
  missing task raises nothing, returns a new empty inner dictionary and stores it under
  the task, and looking up any date in that dictionary returns \<open>v0\<close> and stores it;
  looking up a missing date under a task that is there returns \<open>v0\<close> and stores it.
\<close>

definition auto_vivifying :: "'v \<Rightarrow> 'v defaultdict defaultdict \<Rightarrow> bool" where
  "auto_vivifying v0 d =
     (\<forall>task date.
        (map_of (entries d) task = None \<longrightarrow>
           (\<exists>inner. dd_getitem d task = (Inr inner, d\<lparr>entries := entries d @ [(task, inner)]\<rparr>)
              \<and> entries inner = []
              \<and> dd_getitem inner date = (Inr v0, inner\<lparr>entries := [(date, v0)]\<rparr>)))
      \<and> (\<forall>inner. map_of (entries d) task = Some inner \<and> map_of (entries inner) date = None \<longrightarrow>
           dd_getitem inner date = (Inr v0, inner\<lparr>entries := entries inner @ [(date, v0)]\<rparr>)))"

text \<open>
  A directory of four matching names: three readable files and one that cannot be
  opened.
\<close>

definition sample_world :: world where
  "sample_world =
     \<lparr>files = (\<lambda>p.
        if p = ''stats/A - Challenge - 2024.01.15-10.30.00 Stats.csv''
          then Inr ''h\<newline>Weapon,x\<newline>p,1\<newline>Kills:,3\<newline>''
        else if p = ''stats/A - Challenge - 2024.01.16-10.30.00 Stats.csv''
          then Inr ''Kills:,4\<newline>''
        else if p = ''stats/B - Challenge - 2024.01.16-10.30.00 Stats.csv''
          then Inr []
        else Inl OSError),
      listdir = (\<lambda>d.
        if d = ''stats''
        then Inr [''A - Challenge - 2024.01.15-10.30.00 Stats.csv'',
                  ''C - Challenge - 2024.01.16-10.30.00 Stats.csv'',
                  ''A - Challenge - 2024.01.16-10.30.00 Stats.csv'',
                  ''B - Challenge - 2024.01.16-10.30.00 Stats.csv'']
        else Inl OSError)\<rparr>"

text \<open>
  The pattern of line 128, said without a matcher. \<open>tail_text s g2\<close>: the text \<open>s\<close>
  starts with whitespace, a hyphen, whitespace, \<open>Challenge\<close>, whitespace, a hyphen,
  whitespace, the timestamp \<open>g2\<close>, whitespace and \<open>Stats.csv\<close>, each whitespace of any
  length, none included. \<open>lazy_match name g1 g2\<close>: \<open>g1\<close> is the shortest start of
  \<open>name\<close> without a line feed after which such a text stands.
\<close>

definition digit_text :: "nat \<Rightarrow> string \<Rightarrow> bool" where
  "digit_text n s = (length s = n \<and> list_all isdigit s)"

definition timestamp_text :: "string \<Rightarrow> bool" where
  "timestamp_text ts =
     (\<exists>y m d hh mm ss.
        ts = y @ ''.'' @ m @ ''.'' @ d @ ''-'' @ hh @ ''.'' @ mm @ ''.'' @ ss
        \<and> digit_text 4 y \<and> digit_text 2 m \<and> digit_text 2 d
        \<and> digit_text 2 hh \<and> digit_text 2 mm \<and> digit_text 2 ss)"

definition tail_text :: "string \<Rightarrow> string \<Rightarrow> bool" where
  "tail_text s g2 =
     (\<exists>w1 w2 w3 w4 w5 rest.
        s = w1 @ ''-'' @ w2 @ ''Challenge'' @ w3 @ ''-'' @ w4 @ g2 @ w5 @ ''Stats.csv'' @ rest
        \<and> list_all isspace w1 \<and> list_all isspace w2 \<and> list_all isspace w3
        \<and> list_all isspace w4 \<and> list_all isspace w5
        \<and> timestamp_text g2)"

definition lazy_match :: "string \<Rightarrow> string \<Rightarrow> string \<Rightarrow> bool" where
  "lazy_match name g1 g2 =
     (\<exists>b. name = g1 @ b \<and> tail_text b g2 \<and> CHR 0x0A \<notin> set g1
        \<and> (\<forall>a' b' g'. name = a' @ b' \<and> length a' < length g1 \<longrightarrow> \<not> tail_text b' g'))"

text \<open>
  The table of the header alone, as lines 59 and 62 read it: what \<open>read_csv\<close> with
  \<open>nrows=0\<close> returns, or \<open>pd.DataFrame()\<close> when that raises.
\<close>

definition header_or_empty :: "pandas \<Rightarrow> string \<Rightarrow> dataframe" where
  "header_or_empty pd content =
     (case read_csv pd content 0 0 of Inr df \<Rightarrow> df | Inl e \<Rightarrow> empty_frame)"

text \<open>
  A world none of whose files can be read, for a given exception; and a file whose
  event table has a row with too many fields while its weapon table is well formed.
\<close>

definition unreadable_file :: "exn \<Rightarrow> world" where
  "unreadable_file e = \<lparr>files = (\<lambda>p. Inl e), listdir = (\<lambda>d. Inl OSError)\<rparr>"

definition sample_bad_events :: string where
  "sample_bad_events = ''a,b\<newline>1,2\<newline>3,4,5\<newline>Weapon,x\<newline>p,1\<newline>Kills:,5\<newline>''"

text \<open>
  The file name pattern in the words of the spec,
  \<open><task name> - Challenge - <YYYY.MM.DD-HH.MM.SS> Stats.csv\<close>, matched exactly: one
  space on each side of the two hyphens and before \<open>Stats.csv\<close>, and nothing after it.
\<close>

definition spec_filename_form :: "string \<Rightarrow> bool" where
  "spec_filename_form name =
     (\<exists>task ts. name = task @ '' - Challenge - '' @ ts @ '' Stats.csv'' \<and> timestamp_text ts)"

text \<open>A directory with one readable file whose name has no space at all.\<close>

definition unspaced_world :: world where
  "unspaced_world =
     \<lparr>files = (\<lambda>p.
        if p = ''stats/A-Challenge-2024.01.15-10.30.00Stats.csv'' then Inr ''Kills:,1\<newline>''
        else Inl OSError),
      listdir = (\<lambda>d.
        if d = ''stats'' then Inr [''A-Challenge-2024.01.15-10.30.00Stats.csv'']
        else Inl OSError)\<rparr>"


section \<open>Stats values\<close>

lemma split1_colon:
  "CHR '':'' \<in> set s \<Longrightarrow> \<exists>a b. split1 CHR '':'' s = [a, b]"
proof -
  assume "CHR '':'' \<in> set s"
  then have "dropWhile (\<lambda>c. c \<noteq> CHR '':'') s \<noteq> []"
    by (simp add: dropWhile_eq_Nil_conv)
  then show ?thesis
    by (cases "dropWhile (\<lambda>c. c \<noteq> CHR '':'') s") (simp_all add: split1_def)
qed

lemma stats_line_update:
  assumes "CHR '':'' \<in> set (strip l)"
  shows "stats_line l d = AList.update (stat_key l) (coerce (stat_value l)) d"
proof -
  from assms obtain a b where "split1 CHR '':'' (strip l) = [a, b]"
    using split1_colon by blast
  moreover from assms have "strip l \<noteq> []" by auto
  ultimately show ?thesis
    using assms by (simp add: stats_line_def stat_key_def stat_value_def Let_def)
qed

text \<open>
  C1, as the code has it. A line with a colon stores, under its key, the converted
  cleaned value. Cleaning strips commas at both ends only: \<open>1,234,\<close> is cleaned to
  \<open>1,234\<close>, which \<open>int\<close> rejects, so the string \<open>1,234\<close> is stored unchanged;
  \<open>0.50,\<close> is cleaned to \<open>0.50\<close> and stored as the float \<open>0.5\<close>; \<open>N/A\<close> is stored
  unchanged as a string.
\<close>

theorem stats_value_coercion:
  "(CHR '':'' \<in> set (strip l) \<longrightarrow>
      map_of (stats_line l d) (stat_key l) = Some (coerce (stat_value l)))
   \<and> clean_value ''1,234,'' = ''1,234'' \<and> coerce ''1,234'' = VStr ''1,234''
   \<and> clean_value ''0.50,'' = ''0.50'' \<and> coerce ''0.50'' = VFloat (Finite (1 / 2))
   \<and> clean_value ''N/A'' = ''N/A'' \<and> coerce ''N/A'' = VStr ''N/A''"
proof -
  have "CHR '':'' \<in> set (strip l) \<longrightarrow>
      map_of (stats_line l d) (stat_key l) = Some (coerce (stat_value l))"
    by (simp add: stats_line_update update_Some_unfold)
  moreover have "clean_value ''1,234,'' = ''1,234''" by code_simp
  moreover have "coerce ''1,234'' = VStr ''1,234''" by code_simp
  moreover have "clean_value ''0.50,'' = ''0.50''" by code_simp
  moreover have "coerce ''0.50'' = VFloat (Finite (1 / 2))" by code_simp
  moreover have "clean_value ''N/A'' = ''N/A''" by code_simp
  moreover have "coerce ''N/A'' = VStr ''N/A''" by code_simp
  ultimately show ?thesis by blast
qed

theorem stats_value_coercion_witness:
  "map_of (stats_line ''Score:,1,234,\<newline>'' []) ''Score'' = Some (VStr ''1,234'')"
proof -
  have h: "CHR '':'' \<in> set (strip ''Score:,1,234,\<newline>'')" by code_simp
  have k: "stat_key ''Score:,1,234,\<newline>'' = ''Score''" by code_simp
  have v: "coerce (stat_value ''Score:,1,234,\<newline>'') = VStr ''1,234''" by code_simp
  from stats_value_coercion [of "''Score:,1,234,\<newline>''" "[]"] h k v show ?thesis by simp
qed

text \<open>
  C1 as the spec states it fails: after a \<open>Kills:,\<close> line, the line
  \<open>Score:,1,234,\<close> does not store the integer 1234.
\<close>

theorem stats_value_coercion_counterexample:
  "map_of (parse_stats [''Kills:,5\<newline>'', ''Score:,1,234,\<newline>''] (Some 0)) ''Score''
     = Some (VStr ''1,234'')
   \<and> map_of (parse_stats [''Kills:,5\<newline>'', ''Score:,1,234,\<newline>''] (Some 0)) ''Score''
     \<noteq> Some (VInt 1234)"
proof -
  have "parse_stats [''Kills:,5\<newline>'', ''Score:,1,234,\<newline>''] (Some 0)
      = [(''Kills'', VInt 5), (''Score'', VStr ''1,234'')]"
    by code_simp
  then show ?thesis by simp
qed

section \<open>Boundary detection\<close>

lemma first_index_None_iff: "first_index P xs = None \<longleftrightarrow> (\<forall>x \<in> set xs. \<not> P x)"
  by (induction xs) auto

lemma first_index_Some_iff:
  "first_index P xs = Some j \<longleftrightarrow> j < length xs \<and> P (xs ! j) \<and> (\<forall>i < j. \<not> P (xs ! i))"
proof (induction xs arbitrary: j)
  case Nil
  then show ?case by simp
next
  case (Cons x xs)
  show ?case
  proof (cases "P x")
    case True
    then show ?thesis by (cases j) auto
  next
    case False
    show ?thesis
    proof (cases j)
      case 0
      with False show ?thesis by auto
    next
      case (Suc k)
      have "(\<forall>i<Suc k. \<not> P ((x # xs) ! i)) \<longleftrightarrow> (\<forall>i<k. \<not> P (xs ! i))"
        using False by (auto simp: less_Suc_eq_0_disj)
      with False Suc Cons.IH [of k] show ?thesis by auto
    qed
  qed
qed

lemma first_index_append_found:
  "first_index P pre = None \<Longrightarrow> P k \<Longrightarrow> first_index P (pre @ k # rest) = Some (length pre)"
  by (induction pre) (auto split: if_splits)

lemma kills_not_weapon: "is_kills l \<Longrightarrow> \<not> is_weapon l"
  by (auto simp: is_kills_def is_weapon_def startswith_def)

lemma map_plus_Suc: "map_option ((+) (Suc i)) x = map_option (\<lambda>k. Suc (i + k)) x"
  by (cases x) simp_all

lemma map_plus_0: "map_option ((+) (0::nat)) x = x"
  by (cases x) simp_all

lemma scan_first:
  "scan i ls s1 None =
     (case first_index is_kills ls of
        None \<Rightarrow> (if s1 = None then map_option (\<lambda>k. i + k) (first_index is_weapon ls) else s1, None)
      | Some j \<Rightarrow>
          (if s1 = None then map_option (\<lambda>k. i + k) (first_index is_weapon (take j ls)) else s1,
           Some (i + j)))"
proof (induction ls arbitrary: i s1)
  case Nil
  then show ?case by simp
next
  case (Cons l ls)
  show ?case
  proof (cases "is_kills l")
    case True
    then have "\<not> is_weapon l" by (rule kills_not_weapon)
    with True show ?thesis by (simp add: is_kills_def is_weapon_def)
  next
    case False
    then show ?thesis
      using Cons.IH [of "Suc i"]
      by (auto simp: is_kills_def is_weapon_def Let_def option.map_comp comp_def map_plus_Suc
          split: option.splits)
  qed
qed

lemma section_bounds_eq:
  "section_bounds lines =
     (first_index is_weapon
        (take (case first_index is_kills lines of None \<Rightarrow> length lines | Some j \<Rightarrow> j) lines),
      first_index is_kills lines)"
  by (simp add: section_bounds_def scan_first map_plus_0 split: option.splits)

text \<open>
  C7. The second boundary is the index of the first line whose trimmed form starts
  with \<open>Kills:,\<close>, and the scan halts there: the first boundary is the index of the
  first line whose trimmed form starts with \<open>Weapon,\<close> among the lines scanned, those
  before that line. Whatever follows the first \<open>Kills:,\<close> line, a later
  \<open>Kills:,\<close> line included, changes neither boundary.
\<close>

theorem boundary_detection:
  "section_bounds lines =
     (first_index is_weapon
        (take (case first_index is_kills lines of None \<Rightarrow> length lines | Some j \<Rightarrow> j) lines),
      first_index is_kills lines)
   \<and> (first_index is_kills pre = None \<and> is_kills k \<longrightarrow>
        section_bounds (pre @ k # rest) = (first_index is_weapon pre, Some (length pre)))"
  by (simp add: section_bounds_eq first_index_append_found)

theorem boundary_detection_witness:
  "section_bounds
     ([''h\<newline>'', ''Weapon,a\<newline>''] @ ''Kills:,1\<newline>'' # [''Kills:,2\<newline>'', ''Weapon,b\<newline>''])
   = (Some 1, Some 2)"
proof -
  have a: "first_index is_kills [''h\<newline>'', ''Weapon,a\<newline>''] = None" by code_simp
  have b: "is_kills ''Kills:,1\<newline>''" by code_simp
  have c: "first_index is_weapon [''h\<newline>'', ''Weapon,a\<newline>''] = Some 1" by code_simp
  from boundary_detection [of "[]" "[''h\<newline>'', ''Weapon,a\<newline>'']" "''Kills:,1\<newline>''"
      "[''Kills:,2\<newline>'', ''Weapon,b\<newline>'']"] a b c
  show ?thesis by simp
qed

section \<open>The stats map\<close>

lemma stats_line_skip: "CHR '':'' \<notin> set (strip l) \<Longrightarrow> stats_line l d = d"
  by (simp add: stats_line_def)

lemma map_of_stats_fold:
  "map_of (foldl (\<lambda>d l. stats_line l d) d ls) = map_of (rev (stat_pairs ls) @ d)"
proof (induction ls arbitrary: d)
  case Nil
  then show ?case by (simp add: stat_pairs_def)
next
  case (Cons l ls)
  show ?case
  proof (cases "CHR '':'' \<in> set (strip l)")
    case True
    then have "stats_line l d = AList.update (stat_key l) (coerce (stat_value l)) d"
      by (rule stats_line_update)
    have "map_of (foldl (\<lambda>d l. stats_line l d) d (l # ls))
        = map_of (rev (stat_pairs ls) @ AList.update (stat_key l) (coerce (stat_value l)) d)"
      using Cons.IH True by (simp add: stats_line_update)
    also have "\<dots> = map_of (rev (stat_pairs (l # ls)) @ d)"
      using True by (simp add: stat_pairs_def update_conv' map_add_def fun_eq_iff split: option.splits)
    finally show ?thesis .
  next
    case False
    then show ?thesis using Cons.IH by (simp add: stats_line_skip stat_pairs_def)
  qed
qed

lemma map_of_parse_stats:
  "map_of (parse_stats lines (Some k)) = map_of (rev (stat_pairs (drop k lines)))"
  by (simp add: parse_stats_def map_of_stats_fold)

section \<open>Reads of the file\<close>

lemma read_csv_no_rows: "read_csv pd content k 0 = Inr df \<Longrightarrow> rows df = []"
  by (auto simp: read_csv_def Let_def split: if_splits list.splits sum.splits)

lemma opened_read_csv: "snd (pd_read_csv pd w p k n) = [p]"
  by (simp add: pd_read_csv_def split: sum.splits)

lemma opened_fallback: "snd (main_fallback pd w p) = [p]"
proof -
  obtain r o1 where "pd_read_csv pd w p 0 0 = (r, o1)" by (cases "pd_read_csv pd w p 0 0")
  moreover from this have "o1 = [p]" using opened_read_csv [of pd w p 0 0] by simp
  ultimately show ?thesis by (simp add: main_fallback_def split: sum.splits)
qed

lemma opened_main:
  "\<exists>n \<le> 3. snd (read_main pd w p s1) = replicate n p \<and> (n = 0 \<longleftrightarrow> s1 = None \<or> s1 = Some 0)"
proof (cases s1)
  case None
  then show ?thesis by (simp add: read_main_def)
next
  case (Some k)
  show ?thesis
  proof (cases "0 < k")
    case False
    with Some show ?thesis by (simp add: read_main_def)
  next
    case True
    obtain r1 o1 where r1: "pd_read_csv pd w p 0 (int k - 1) = (r1, o1)"
      by (cases "pd_read_csv pd w p 0 (int k - 1)")
    then have o1: "o1 = [p]" using opened_read_csv [of pd w p 0 "int k - 1"] by simp
    obtain r2 o2 where r2: "pd_read_csv pd w p 0 0 = (r2, o2)"
      by (cases "pd_read_csv pd w p 0 0")
    then have o2: "o2 = [p]" using opened_read_csv [of pd w p 0 0] by simp
    obtain df3 o3 where r3: "main_fallback pd w p = (df3, o3)"
      by (cases "main_fallback pd w p")
    then have o3: "o3 = [p]" using opened_fallback [of pd w p] by simp
    have "snd (read_main pd w p s1) = [p] \<or> snd (read_main pd w p s1) = [p, p]
        \<or> snd (read_main pd w p s1) = [p, p, p]"
      using Some True r1 r2 r3 o1 o2 o3
      by (auto simp: read_main_def split: sum.splits)
    then consider "snd (read_main pd w p s1) = replicate 1 p"
      | "snd (read_main pd w p s1) = replicate 2 p"
      | "snd (read_main pd w p s1) = replicate 3 p"
      by (auto simp: numeral_2_eq_2 numeral_3_eq_3)
    then show ?thesis
    proof cases
      case 1
      with Some True show ?thesis by (intro exI [of _ 1]) simp
    next
      case 2
      with Some True show ?thesis by (intro exI [of _ 2]) simp
    next
      case 3
      with Some True show ?thesis by (intro exI [of _ 3]) simp
    qed
  qed
qed

lemma opened_weapon:
  "snd (read_weapon pd w p s1 s2) = (if s1 \<noteq> None \<and> s2 \<noteq> None then [p] else [])"
proof (cases s1)
  case None
  then show ?thesis by (simp add: read_weapon_def)
next
  case (Some a)
  show ?thesis
  proof (cases s2)
    case None
    with Some show ?thesis by (simp add: read_weapon_def)
  next
    case (Some b)
    obtain r o1 where r: "pd_read_csv pd w p a (int b - int a - 1) = (r, o1)"
      by (cases "pd_read_csv pd w p a (int b - int a - 1)")
    then have "o1 = [p]" using opened_read_csv [of pd w p a "int b - int a - 1"] by simp
    with r Some \<open>s1 = Some a\<close> show ?thesis
      by (simp add: read_weapon_def split: sum.splits)
  qed
qed

lemma parse_readable:
  assumes "files w p = Inr content"
  shows "parse_kovaaks_csv pd w p =
     (Inr (fst (read_main pd w p (fst (section_bounds (readlines content)))),
           fst (read_weapon pd w p (fst (section_bounds (readlines content)))
                  (snd (section_bounds (readlines content)))),
           parse_stats (readlines content) (snd (section_bounds (readlines content)))),
      [p] @ snd (read_main pd w p (fst (section_bounds (readlines content))))
          @ snd (read_weapon pd w p (fst (section_bounds (readlines content)))
                  (snd (section_bounds (readlines content)))))"
  using assms by (simp add: parse_kovaaks_csv_def Let_def split: prod.splits)

lemma parse_unreadable:
  "files w p = Inl e \<Longrightarrow> parse_kovaaks_csv pd w p = (Inl e, [p])"
  by (simp add: parse_kovaaks_csv_def)

lemma files_one_file: "files (one_file p c) p = Inr c"
  by (simp add: one_file_def)

text \<open>
  C2, as the code has it. The parser opens the file once for \<open>readlines\<close>, and the
  boundaries and the stats map are computed from these lines. The two tables are not
  parsed from them: every \<open>pd.read_csv(filepath, ...)\<close> opens the file again by its
  path, up to three times for the event table and once for the weapon table. So the
  parser opens the one path between one and five times, and exactly once only when
  the first boundary is unset, or is 0 while the second is unset.
\<close>

theorem file_reads:
  "snd (parse_kovaaks_csv pd w filepath)
     = replicate (length (snd (parse_kovaaks_csv pd w filepath))) filepath
   \<and> 1 \<le> length (snd (parse_kovaaks_csv pd w filepath))
   \<and> length (snd (parse_kovaaks_csv pd w filepath)) \<le> 5
   \<and> (files w filepath = Inr content \<longrightarrow>
        (\<exists>main_df weapon_df. fst (parse_kovaaks_csv pd w filepath)
            = Inr (main_df, weapon_df,
                   parse_stats (readlines content) (snd (section_bounds (readlines content)))))
        \<and> (length (snd (parse_kovaaks_csv pd w filepath)) = 1 \<longleftrightarrow>
             fst (section_bounds (readlines content)) = None
             \<or> section_bounds (readlines content) = (Some 0, None)))"
proof (cases "files w filepath")
  case (Inl e)
  then show ?thesis by (simp add: parse_unreadable)
next
  case (Inr c)
  obtain s1 s2 where b: "section_bounds (readlines c) = (s1, s2)"
    by (cases "section_bounds (readlines c)")
  obtain n where n: "n \<le> 3" "snd (read_main pd w filepath s1) = replicate n filepath"
    "n = 0 \<longleftrightarrow> s1 = None \<or> s1 = Some 0"
    using opened_main [of pd w filepath s1] by blast
  define m :: nat where "m = (if s1 \<noteq> None \<and> s2 \<noteq> None then 1 else 0)"
  have mw: "snd (read_weapon pd w filepath s1 s2) = replicate m filepath"
    by (simp add: opened_weapon m_def)
  have opened: "snd (parse_kovaaks_csv pd w filepath) = replicate (1 + n + m) filepath"
    using Inr b n(2) mw by (simp add: parse_readable replicate_add)
  have len: "length (snd (parse_kovaaks_csv pd w filepath)) = 1 + n + m"
    by (simp add: opened)
  have one: "1 + n + m = 1 \<longleftrightarrow> s1 = None \<or> (s1 = Some 0 \<and> s2 = None)"
    using n(3) by (auto simp: m_def)
  have "m \<le> 1" by (simp add: m_def)
  with n(1) have "1 + n + m \<le> 5" by simp
  moreover have "files w filepath = Inr content \<longrightarrow> content = c" using Inr by simp
  ultimately show ?thesis
    using opened len one b Inr by (auto simp: parse_readable)
qed

theorem file_reads_witness:
  "length (snd (parse_kovaaks_csv plain_pandas (one_file ''f'' sample_header_only) ''f'')) \<le> 5
   \<and> length (snd (parse_kovaaks_csv plain_pandas (one_file ''f'' sample_header_only) ''f'')) \<noteq> 1"
proof -
  have b: "section_bounds (readlines sample_header_only) = (Some 1, Some 3)" by code_simp
  from file_reads [of plain_pandas "one_file ''f'' sample_header_only" "''f''" sample_header_only]
    files_one_file [of "''f''" sample_header_only] b
  show ?thesis by simp
qed

text \<open>
  C2 as the spec states it fails: a file with a header line, a weapon table and a
  stats line is opened four times.
\<close>

theorem file_reads_counterexample:
  "snd (parse_kovaaks_csv plain_pandas (one_file ''f'' sample_header_only) ''f'')
     = [''f'', ''f'', ''f'', ''f'']"
  by code_simp

section \<open>Malformed sections\<close>

lemma header_or_empty_rows: "rows (header_or_empty pd content) = []"
  by (auto simp: header_or_empty_def empty_frame_def dest: read_csv_no_rows split: sum.splits)

lemma main_fallback_readable:
  "files w p = Inr content \<Longrightarrow> fst (main_fallback pd w p) = header_or_empty pd content"
  by (simp add: main_fallback_def pd_read_csv_def header_or_empty_def split: sum.splits)

lemma read_main_readable:
  assumes "files w p = Inr content"
  shows "fst (read_main pd w p s1) =
     (case s1 of
        None \<Rightarrow> empty_frame
      | Some k \<Rightarrow>
          if 0 < k then
            (case read_csv pd content 0 (int k - 1) of
               Inl x \<Rightarrow> header_or_empty pd content
             | Inr df \<Rightarrow> if rows df = [] then header_or_empty pd content else df)
          else empty_frame)"
proof (cases s1)
  case None
  then show ?thesis by (simp add: read_main_def)
next
  case (Some k)
  show ?thesis
  proof (cases "0 < k")
    case False
    with Some show ?thesis by (simp add: read_main_def)
  next
    case True
    note fb = main_fallback_readable [OF assms, of pd]
    show ?thesis
    proof (cases "read_csv pd content 0 (int k - 1)")
      case (Inl x)
      with Some True assms fb show ?thesis
        by (auto simp: read_main_def pd_read_csv_def split: prod.splits)
    next
      case (Inr df)
      show ?thesis
      proof (cases "rows df = []")
        case False
        with Inr Some True assms show ?thesis
          by (simp add: read_main_def pd_read_csv_def)
      next
        case empty: True
        show ?thesis
        proof (cases "read_csv pd content 0 0")
          case (Inl y)
          with empty Inr Some True assms fb show ?thesis
            by (auto simp: read_main_def pd_read_csv_def header_or_empty_def split: prod.splits)
        next
          case inr0: (Inr df0)
          with empty Inr Some True assms show ?thesis
            by (simp add: read_main_def pd_read_csv_def header_or_empty_def)
        qed
      qed
    qed
  qed
qed

lemma read_weapon_readable:
  assumes "files w p = Inr content"
  shows "fst (read_weapon pd w p s1 s2) =
     (case s1 of
        None \<Rightarrow> empty_frame
      | Some a \<Rightarrow>
          (case s2 of
             None \<Rightarrow> empty_frame
           | Some b \<Rightarrow>
               (case read_csv pd content a (int b - int a - 1) of
                  Inl x \<Rightarrow> empty_frame
                | Inr df \<Rightarrow> dropna_all df)))"
  using assms
  by (simp add: read_weapon_def pd_read_csv_def split: option.splits sum.splits)

text \<open>
  C5, as the code has it. An exception of opening or decoding the file (lines 33 and
  34 stand outside every \<open>try\<close>) is raised to the caller. For a file that can be read
  the parser raises nothing, whatever \<open>read_csv\<close> does, and each of its three parts is
  fixed by its own reads alone, so that a section that fails leaves the other two as
  they are parsed without the failure:
  \<^item> the event table is \<open>pd.DataFrame()\<close> when the first boundary is unset or 0;
    otherwise it is what the first read returns when that has rows, and the table of
    the header alone when the first read raises or returns no rows: what
    \<open>read_csv\<close> with \<open>nrows=0\<close> returns (no rows, the header's columns), or
    \<open>pd.DataFrame()\<close> when that raises too;
  \<^item> the weapon table is \<open>pd.DataFrame()\<close> when a boundary is unset or its read
    raises, and otherwise what the read returns without its all-missing rows;
  \<^item> the stats map is parsed from the lines.
\<close>

theorem malformed_sections:
  "(files w filepath = Inl e \<longrightarrow> fst (parse_kovaaks_csv pd w filepath) = Inl e)
   \<and> (files w filepath = Inr content \<and> section_bounds (readlines content) = (s1, s2) \<longrightarrow>
        (\<exists>main_df weapon_df.
           fst (parse_kovaaks_csv pd w filepath)
             = Inr (main_df, weapon_df, parse_stats (readlines content) s2)
           \<and> main_df =
               (case s1 of
                  None \<Rightarrow> empty_frame
                | Some k \<Rightarrow>
                    if 0 < k then
                      (case read_csv pd content 0 (int k - 1) of
                         Inl x \<Rightarrow> header_or_empty pd content
                       | Inr df \<Rightarrow> if rows df = [] then header_or_empty pd content else df)
                    else empty_frame)
           \<and> weapon_df =
               (case s1 of
                  None \<Rightarrow> empty_frame
                | Some a \<Rightarrow>
                    (case s2 of
                       None \<Rightarrow> empty_frame
                     | Some b \<Rightarrow>
                         (case read_csv pd content a (int b - int a - 1) of
                            Inl x \<Rightarrow> empty_frame
                          | Inr df \<Rightarrow> dropna_all df)))
           \<and> header_or_empty pd content
               = (case read_csv pd content 0 0 of Inr df \<Rightarrow> df | Inl x \<Rightarrow> empty_frame)
           \<and> rows (header_or_empty pd content) = []))"
proof (intro conjI impI)
  assume "files w filepath = Inl e"
  then show "fst (parse_kovaaks_csv pd w filepath) = Inl e" by (simp add: parse_unreadable)
next
  assume a: "files w filepath = Inr content \<and> section_bounds (readlines content) = (s1, s2)"
  then have f: "files w filepath = Inr content"
    and b: "section_bounds (readlines content) = (s1, s2)" by blast+
  have p: "fst (parse_kovaaks_csv pd w filepath)
      = Inr (fst (read_main pd w filepath s1), fst (read_weapon pd w filepath s1 s2),
             parse_stats (readlines content) s2)"
    by (simp add: parse_readable [OF f] b)
  show "\<exists>main_df weapon_df.
           fst (parse_kovaaks_csv pd w filepath)
             = Inr (main_df, weapon_df, parse_stats (readlines content) s2)
           \<and> main_df =
               (case s1 of
                  None \<Rightarrow> empty_frame
                | Some k \<Rightarrow>
                    if 0 < k then
                      (case read_csv pd content 0 (int k - 1) of
                         Inl x \<Rightarrow> header_or_empty pd content
                       | Inr df \<Rightarrow> if rows df = [] then header_or_empty pd content else df)
                    else empty_frame)
           \<and> weapon_df =
               (case s1 of
                  None \<Rightarrow> empty_frame
                | Some a \<Rightarrow>
                    (case s2 of
                       None \<Rightarrow> empty_frame
                     | Some b \<Rightarrow>
                         (case read_csv pd content a (int b - int a - 1) of
                            Inl x \<Rightarrow> empty_frame
                          | Inr df \<Rightarrow> dropna_all df)))
           \<and> header_or_empty pd content
               = (case read_csv pd content 0 0 of Inr df \<Rightarrow> df | Inl x \<Rightarrow> empty_frame)
           \<and> rows (header_or_empty pd content) = []"
    by (intro exI [of _ "fst (read_main pd w filepath s1)"]
        exI [of _ "fst (read_weapon pd w filepath s1 s2)"] conjI p
        read_main_readable [OF f] read_weapon_readable [OF f] header_or_empty_rows)
      (simp add: header_or_empty_def)
qed

theorem malformed_sections_witness:
  "fst (parse_kovaaks_csv plain_pandas (one_file ''f'' sample_bad_events) ''f'')
     = Inr (\<lparr>columns = [''a'', ''b''], rows = []\<rparr>,
            \<lparr>columns = [''Weapon'', ''x''], rows = [[Some ''p'', Some ''1'']]\<rparr>,
            [(''Kills'', VInt 5)])
   \<and> fst (parse_kovaaks_csv plain_pandas (unreadable_file UnicodeDecodeError) ''f'')
     = Inl UnicodeDecodeError"
proof -
  have b: "section_bounds (readlines sample_bad_events) = (Some 3, Some 5)" by code_simp
  have e: "read_csv plain_pandas sample_bad_events 0 (int 3 - 1) = Inl ParserError"
    by code_simp
  have h: "read_csv plain_pandas sample_bad_events 0 0
      = Inr \<lparr>columns = [''a'', ''b''], rows = []\<rparr>" by code_simp
  have g: "read_csv plain_pandas sample_bad_events 3 (int 5 - int 3 - 1)
      = Inr \<lparr>columns = [''Weapon'', ''x''], rows = [[Some ''p'', Some ''1'']]\<rparr>"
    by code_simp
  have d: "dropna_all \<lparr>columns = [''Weapon'', ''x''], rows = [[Some ''p'', Some ''1'']]\<rparr>
      = \<lparr>columns = [''Weapon'', ''x''], rows = [[Some ''p'', Some ''1'']]\<rparr>"
    by (simp add: dropna_all_def)
  have s: "parse_stats (readlines sample_bad_events) (Some 5) = [(''Kills'', VInt 5)]"
    by code_simp
  have u: "files (unreadable_file UnicodeDecodeError) ''f'' = Inl UnicodeDecodeError"
    by (simp add: unreadable_file_def)
  from malformed_sections [where w = "one_file ''f'' sample_bad_events" and filepath = "''f''"
      and content = sample_bad_events and pd = plain_pandas and ?s1.0 = "Some 3"
      and ?s2.0 = "Some 5"]
    files_one_file [of "''f''" sample_bad_events] b
  have 1: "fst (parse_kovaaks_csv plain_pandas (one_file ''f'' sample_bad_events) ''f'')
     = Inr (\<lparr>columns = [''a'', ''b''], rows = []\<rparr>,
            \<lparr>columns = [''Weapon'', ''x''], rows = [[Some ''p'', Some ''1'']]\<rparr>,
            [(''Kills'', VInt 5)])"
    using e h g d s by (auto simp: header_or_empty_def)
  from malformed_sections [where w = "unreadable_file UnicodeDecodeError" and filepath = "''f''"
      and pd = plain_pandas and e = UnicodeDecodeError] u
  have 2: "fst (parse_kovaaks_csv plain_pandas (unreadable_file UnicodeDecodeError) ''f'')
     = Inl UnicodeDecodeError" by blast
  from 1 2 show ?thesis by blast
qed

text \<open>
  C5 as the spec states it fails. In the file below the read of the event table
  raises, and the event table returned is not an empty container: it has the columns
  \<open>a\<close> and \<open>b\<close> of the header. And the parser raises on a file that cannot be
  decoded.
\<close>

theorem malformed_sections_counterexample:
  "fst (parse_kovaaks_csv plain_pandas (one_file ''f'' sample_malformed) ''f'')
     = Inr (\<lparr>columns = [''a'', ''b''], rows = []\<rparr>, empty_frame, [(''Kills'', VInt 5)])
   \<and> read_csv plain_pandas sample_malformed 0 2 = Inl ParserError
   \<and> \<lparr>columns = [''a'', ''b''], rows = []\<rparr> \<noteq> empty_frame
   \<and> fst (parse_kovaaks_csv plain_pandas (unreadable_file UnicodeDecodeError) ''f'')
     = Inl UnicodeDecodeError"
proof -
  have "fst (parse_kovaaks_csv plain_pandas (one_file ''f'' sample_malformed) ''f'')
     = Inr (\<lparr>columns = [''a'', ''b''], rows = []\<rparr>, empty_frame, [(''Kills'', VInt 5)])"
    by code_simp
  moreover have "read_csv plain_pandas sample_malformed 0 2 = Inl ParserError" by code_simp
  moreover have "\<lparr>columns = [''a'', ''b''], rows = []\<rparr> \<noteq> empty_frame"
    by (simp add: empty_frame_def)
  moreover have "fst (parse_kovaaks_csv plain_pandas (unreadable_file UnicodeDecodeError) ''f'')
     = Inl UnicodeDecodeError"
    by (simp add: parse_kovaaks_csv_def unreadable_file_def)
  ultimately show ?thesis by blast
qed

section \<open>A file without a weapon line\<close>

text \<open>
  C6. When the lines before the first \<open>Kills:,\<close> line hold no \<open>Weapon,\<close> line, the
  first boundary stays unset: the event table and the weapon table are both
  \<open>pd.DataFrame()\<close>, no further read of the file takes place, and the stats map holds,
  for every line with a colon from the \<open>Kills:,\<close> line on, the converted value under
  the line's key, a later line replacing an earlier one with the same key.
\<close>

theorem no_weapon_line:
  assumes "files w filepath = Inr content"
    and "first_index is_kills (readlines content) = Some k"
    and "first_index is_weapon (take k (readlines content)) = None"
  shows "\<exists>stats.
     parse_kovaaks_csv pd w filepath = (Inr (empty_frame, empty_frame, stats), [filepath])
     \<and> map_of stats = map_of (rev (stat_pairs (drop k (readlines content))))"
proof -
  have b: "section_bounds (readlines content) = (None, Some k)"
    using assms(2,3) by (simp add: section_bounds_eq)
  show ?thesis
    using assms(1) b
    by (simp add: parse_readable read_main_def read_weapon_def map_of_parse_stats)
qed

theorem no_weapon_line_witness:
  "\<exists>stats.
     parse_kovaaks_csv plain_pandas (one_file ''f'' sample_stats_only) ''f''
       = (Inr (empty_frame, empty_frame, stats), [''f''])
     \<and> map_of stats ''Kills'' = Some (VInt 5) \<and> map_of stats ''Score'' = Some (VInt 20)"
proof -
  have k: "first_index is_kills (readlines sample_stats_only) = Some 0" by code_simp
  have n: "first_index is_weapon (take 0 (readlines sample_stats_only)) = None" by simp
  have p: "rev (stat_pairs (drop 0 (readlines sample_stats_only)))
      = [(''Score'', VInt 20), (''Score'', VInt 10), (''Kills'', VInt 5)]" by code_simp
  from no_weapon_line [where w = "one_file ''f'' sample_stats_only" and filepath = "''f''"
      and content = sample_stats_only and pd = plain_pandas and k = 0] files_one_file k n p
  show ?thesis by auto
qed

section \<open>An event section of a header line only\<close>

lemma mangle_distinct:
  "distinct xs \<Longrightarrow> set xs \<inter> set seen = {} \<Longrightarrow> mangle seen xs = xs"
proof (induction xs arbitrary: seen)
  case Nil
  then show ?case by simp
next
  case (Cons x xs)
  from Cons.prems have "x \<notin> set seen" by auto
  then have "count_list seen x = 0" by (simp add: count_list_0_iff)
  moreover from Cons.prems have "set xs \<inter> set (seen @ [x]) = {}" by auto
  with Cons.IH Cons.prems have "mangle (seen @ [x]) xs = xs" by simp
  ultimately show ?case by simp
qed

lemma column_names_plain:
  "[] \<notin> set names \<Longrightarrow> distinct names \<Longrightarrow> column_names pd names = names"
  by (simp add: column_names_def mangle_distinct)

lemma read_csv_header:
  assumes "CHR 0x22 \<notin> set content" and "readlines content = h # rest"
    and "\<not> blank_line (chomp h)"
  shows "read_csv pd content 0 0
     = Inr \<lparr>columns = column_names pd (split_fields (chomp h)), rows = []\<rparr>"
  using assms by (simp add: read_csv_def Let_def)

lemma read_main_header_only:
  assumes "files w p = Inr content" and "read_csv pd content 0 0 = Inr df"
  shows "fst (read_main pd w p (Some 1)) = df"
proof -
  from assms(2) have "rows df = []" by (rule read_csv_no_rows)
  with assms show ?thesis by (simp add: read_main_def pd_read_csv_def)
qed

text \<open>
  C8, as the code has it. In a file without double quotes whose first line is a header
  that is not blank and whose second line is the first \<open>Weapon,\<close> line (the first
  boundary is 1), the event table has no rows, and its columns are the header's fields
  when these are non-empty and pairwise distinct; \<open>read_csv\<close> renames the columns of
  any other header. When the first boundary is unset or 0, the event table is
  \<open>pd.DataFrame()\<close>.
\<close>

theorem header_only_event_table:
  "(files w filepath = Inr content \<and> readlines content = h # rest
      \<and> fst (section_bounds (readlines content)) = Some 1
      \<and> CHR 0x22 \<notin> set content \<and> \<not> blank_line (chomp h)
      \<and> [] \<notin> set (split_fields (chomp h)) \<and> distinct (split_fields (chomp h))
    \<longrightarrow> (\<exists>weapon_df stats. fst (parse_kovaaks_csv pd w filepath)
           = Inr (\<lparr>columns = split_fields (chomp h), rows = []\<rparr>, weapon_df, stats)))
   \<and> (files w filepath = Inr content
      \<and> (fst (section_bounds (readlines content)) = None
          \<or> fst (section_bounds (readlines content)) = Some 0)
    \<longrightarrow> (\<exists>weapon_df stats. fst (parse_kovaaks_csv pd w filepath)
           = Inr (empty_frame, weapon_df, stats)))"
proof (intro conjI impI)
  assume a: "files w filepath = Inr content \<and> readlines content = h # rest
      \<and> fst (section_bounds (readlines content)) = Some 1
      \<and> CHR 0x22 \<notin> set content \<and> \<not> blank_line (chomp h)
      \<and> [] \<notin> set (split_fields (chomp h)) \<and> distinct (split_fields (chomp h))"
  then have f: "files w filepath = Inr content"
    and b: "fst (section_bounds (readlines content)) = Some 1" by blast+
  from a have "read_csv pd content 0 0 = Inr \<lparr>columns = split_fields (chomp h), rows = []\<rparr>"
    by (simp add: read_csv_header column_names_plain)
  with f have "fst (read_main pd w filepath (Some 1))
      = \<lparr>columns = split_fields (chomp h), rows = []\<rparr>"
    by (rule read_main_header_only)
  with b have "fst (read_main pd w filepath (fst (section_bounds (readlines content))))
      = \<lparr>columns = split_fields (chomp h), rows = []\<rparr>"
    by simp
  then show "\<exists>weapon_df stats. fst (parse_kovaaks_csv pd w filepath)
           = Inr (\<lparr>columns = split_fields (chomp h), rows = []\<rparr>, weapon_df, stats)"
    by (simp add: parse_readable [OF f])
next
  assume "files w filepath = Inr content
      \<and> (fst (section_bounds (readlines content)) = None
          \<or> fst (section_bounds (readlines content)) = Some 0)"
  then show "\<exists>weapon_df stats. fst (parse_kovaaks_csv pd w filepath)
           = Inr (empty_frame, weapon_df, stats)"
    by (auto simp: parse_readable read_main_def)
qed

theorem header_only_event_table_witness:
  "(\<exists>weapon_df stats. fst (parse_kovaaks_csv plain_pandas (one_file ''f'' sample_header_only) ''f'')
       = Inr (\<lparr>columns = [''h1'', ''h2''], rows = []\<rparr>, weapon_df, stats))
   \<and> (\<exists>weapon_df stats. fst (parse_kovaaks_csv plain_pandas (one_file ''f'' sample_stats_only) ''f'')
       = Inr (empty_frame, weapon_df, stats))"
proof -
  have l: "readlines sample_header_only
      = ''h1,h2\<newline>'' # [''Weapon,Shots\<newline>'', ''pistol,10\<newline>'', ''Kills:,5\<newline>'']"
    by code_simp
  have b: "fst (section_bounds (readlines sample_header_only)) = Some 1" by code_simp
  have q: "CHR 0x22 \<notin> set sample_header_only" by code_simp
  have n: "\<not> blank_line (chomp ''h1,h2\<newline>'')" by code_simp
  have f: "split_fields (chomp ''h1,h2\<newline>'') = [''h1'', ''h2'']" by code_simp
  have b2: "fst (section_bounds (readlines sample_stats_only)) = None" by code_simp
  from header_only_event_table [where w = "one_file ''f'' sample_header_only"
      and filepath = "''f''" and content = sample_header_only and pd = plain_pandas
      and h = "''h1,h2\<newline>''"
      and rest = "[''Weapon,Shots\<newline>'', ''pistol,10\<newline>'', ''Kills:,5\<newline>'']"]
    files_one_file [of "''f''" sample_header_only] l b q n f
  have 1: "\<exists>weapon_df stats.
      fst (parse_kovaaks_csv plain_pandas (one_file ''f'' sample_header_only) ''f'')
       = Inr (\<lparr>columns = [''h1'', ''h2''], rows = []\<rparr>, weapon_df, stats)"
    by simp
  from header_only_event_table [where w = "one_file ''f'' sample_stats_only"
      and filepath = "''f''" and content = sample_stats_only and pd = plain_pandas]
    files_one_file [of "''f''" sample_stats_only] b2
  have 2: "\<exists>weapon_df stats.
      fst (parse_kovaaks_csv plain_pandas (one_file ''f'' sample_stats_only) ''f'')
       = Inr (empty_frame, weapon_df, stats)"
    by simp
  from 1 2 show ?thesis by blast
qed

text \<open>
  C8 as the spec states it fails: for the header line \<open>a,a\<close> the columns are \<open>a\<close>
  and \<open>a.1\<close>, not the names of the header line.
\<close>

theorem header_only_event_table_counterexample:
  "fst (parse_kovaaks_csv plain_pandas (one_file ''f'' sample_repeated_name) ''f'')
     = Inr (\<lparr>columns = [''a'', ''a.1''], rows = []\<rparr>,
            \<lparr>columns = [''Weapon'', ''Shots''], rows = [[Some ''pistol'', Some ''10'']]\<rparr>,
            [(''Kills'', VInt 5)])
   \<and> split_fields (chomp (hd (readlines sample_repeated_name))) = [''a'', ''a'']
   \<and> fst (section_bounds (readlines sample_repeated_name)) = Some 1"
proof -
  have "fst (parse_kovaaks_csv plain_pandas (one_file ''f'' sample_repeated_name) ''f'')
     = Inr (\<lparr>columns = [''a'', ''a.1''], rows = []\<rparr>,
            \<lparr>columns = [''Weapon'', ''Shots''], rows = [[Some ''pistol'', Some ''10'']]\<rparr>,
            [(''Kills'', VInt 5)])" by code_simp
  moreover have "split_fields (chomp (hd (readlines sample_repeated_name))) = [''a'', ''a'']"
    by code_simp
  moreover have "fst (section_bounds (readlines sample_repeated_name)) = Some 1" by code_simp
  ultimately show ?thesis by blast
qed

section \<open>The weapon table\<close>

text \<open>
  C4 fails on the code. Line 72 asks \<open>read_csv\<close> for as many rows as there are lines
  between the two boundaries, but \<open>read_csv\<close> skips blank lines without counting them
  as rows. In the file below the lines 1 to 3 are the weapon header, one weapon row and
  a blank line, and line 4 is the \<open>Kills:,\<close> line: the weapon table gets a second row,
  read from line 4, outside the range from the first boundary to the second.
\<close>

theorem weapon_table_reads_past_boundary:
  "section_bounds (readlines sample_blank_line) = (Some 1, Some 4)
   \<and> fst (parse_kovaaks_csv plain_pandas (one_file ''f'' sample_blank_line) ''f'')
     = Inr (\<lparr>columns = [''h1'', ''h2''], rows = []\<rparr>,
            \<lparr>columns = [''Weapon'', ''Shots''],
               rows = [[Some ''pistol'', Some ''10''], [Some ''Kills:'', Some ''5'']]\<rparr>,
            [(''Kills'', VInt 5), (''Deaths'', VInt 0)])"
proof -
  have "section_bounds (readlines sample_blank_line) = (Some 1, Some 4)" by code_simp
  moreover have "fst (parse_kovaaks_csv plain_pandas (one_file ''f'' sample_blank_line) ''f'')
     = Inr (\<lparr>columns = [''h1'', ''h2''], rows = []\<rparr>,
            \<lparr>columns = [''Weapon'', ''Shots''],
               rows = [[Some ''pistol'', Some ''10''], [Some ''Kills:'', Some ''5'']]\<rparr>,
            [(''Kills'', VInt 5), (''Deaths'', VInt 0)])" by code_simp
  ultimately show ?thesis by blast
qed

section \<open>The file name pattern and its matcher\<close>

lemma lit_Some: "lit p s = Some r \<longleftrightarrow> s = p @ r"
  by (auto simp: lit_def startswith_def) (metis append_take_drop_id)

lemma digits_Some: "digits n s = Some r \<longleftrightarrow> (\<exists>ds. s = ds @ r \<and> digit_text n ds)"
proof
  assume "digits n s = Some r"
  then have "s = take n s @ r \<and> digit_text n (take n s)"
    by (auto simp: digits_def digit_text_def split: if_splits)
  then show "\<exists>ds. s = ds @ r \<and> digit_text n ds" by blast
next
  assume "\<exists>ds. s = ds @ r \<and> digit_text n ds"
  then show "digits n s = Some r" by (auto simp: digits_def digit_text_def)
qed

lemma digits_append: "digit_text n ds \<Longrightarrow> digits n (ds @ r) = Some r"
  by (simp add: digits_def digit_text_def)

lemma lit_append: "lit p (p @ x) = Some x"
  by (simp add: lit_Some)

lemma timestamp_text_parse:
  assumes "timestamp_text ts"
  shows "timestamp (ts @ r) = Some r"
proof -
  from assms obtain y m d hh mm ss where
    s: "ts = y @ ''.'' @ m @ ''.'' @ d @ ''-'' @ hh @ ''.'' @ mm @ ''.'' @ ss"
    and d: "digit_text 4 y" "digit_text 2 m" "digit_text 2 d"
    "digit_text 2 hh" "digit_text 2 mm" "digit_text 2 ss"
    unfolding timestamp_text_def by blast
  have 1: "digits 4 (y @ ''.'' @ m @ ''.'' @ d @ ''-'' @ hh @ ''.'' @ mm @ ''.'' @ ss @ r)
      = Some (''.'' @ m @ ''.'' @ d @ ''-'' @ hh @ ''.'' @ mm @ ''.'' @ ss @ r)"
    using d(1) by (rule digits_append)
  have 2: "digits 2 (m @ ''.'' @ d @ ''-'' @ hh @ ''.'' @ mm @ ''.'' @ ss @ r)
      = Some (''.'' @ d @ ''-'' @ hh @ ''.'' @ mm @ ''.'' @ ss @ r)"
    using d(2) by (rule digits_append)
  have 3: "digits 2 (d @ ''-'' @ hh @ ''.'' @ mm @ ''.'' @ ss @ r)
      = Some (''-'' @ hh @ ''.'' @ mm @ ''.'' @ ss @ r)"
    using d(3) by (rule digits_append)
  have 4: "digits 2 (hh @ ''.'' @ mm @ ''.'' @ ss @ r) = Some (''.'' @ mm @ ''.'' @ ss @ r)"
    using d(4) by (rule digits_append)
  have 5: "digits 2 (mm @ ''.'' @ ss @ r) = Some (''.'' @ ss @ r)"
    using d(5) by (rule digits_append)
  have 6: "digits 2 (ss @ r) = Some r"
    using d(6) by (rule digits_append)
  have "timestamp (y @ ''.'' @ m @ ''.'' @ d @ ''-'' @ hh @ ''.'' @ mm @ ''.'' @ ss @ r) = Some r"
    unfolding timestamp_def
    by (simp only: 1 2 3 4 5 6 lit_append Option.bind.simps)
  then show ?thesis by (simp add: s)
qed

lemma timestamp_parsed:
  assumes "timestamp s = Some r"
  shows "\<exists>ts. s = ts @ r \<and> timestamp_text ts"
proof -
  from assms obtain s1 where 1: "digits 4 s = Some s1"
    and r1: "Option.bind (lit ''.'' s1) (\<lambda>s.
     Option.bind (digits 2 s) (\<lambda>s.
     Option.bind (lit ''.'' s) (\<lambda>s.
     Option.bind (digits 2 s) (\<lambda>s.
     Option.bind (lit ''-'' s) (\<lambda>s.
     Option.bind (digits 2 s) (\<lambda>s.
     Option.bind (lit ''.'' s) (\<lambda>s.
     Option.bind (digits 2 s) (\<lambda>s.
     Option.bind (lit ''.'' s) (\<lambda>s.
     digits 2 s))))))))) = Some r"
    unfolding timestamp_def by (cases "digits 4 s") simp_all
  from r1 obtain s2 where 2: "lit ''.'' s1 = Some s2"
    and r2: "Option.bind (digits 2 s2) (\<lambda>s.
     Option.bind (lit ''.'' s) (\<lambda>s.
     Option.bind (digits 2 s) (\<lambda>s.
     Option.bind (lit ''-'' s) (\<lambda>s.
     Option.bind (digits 2 s) (\<lambda>s.
     Option.bind (lit ''.'' s) (\<lambda>s.
     Option.bind (digits 2 s) (\<lambda>s.
     Option.bind (lit ''.'' s) (\<lambda>s.
     digits 2 s)))))))) = Some r"
    by (cases "lit ''.'' s1") simp_all
  from r2 obtain s3 where 3: "digits 2 s2 = Some s3"
    and r3: "Option.bind (lit ''.'' s3) (\<lambda>s.
     Option.bind (digits 2 s) (\<lambda>s.
     Option.bind (lit ''-'' s) (\<lambda>s.
     Option.bind (digits 2 s) (\<lambda>s.
     Option.bind (lit ''.'' s) (\<lambda>s.
     Option.bind (digits 2 s) (\<lambda>s.
     Option.bind (lit ''.'' s) (\<lambda>s.
     digits 2 s))))))) = Some r"
    by (cases "digits 2 s2") simp_all
  from r3 obtain s4 where 4: "lit ''.'' s3 = Some s4"
    and r4: "Option.bind (digits 2 s4) (\<lambda>s.
     Option.bind (lit ''-'' s) (\<lambda>s.
     Option.bind (digits 2 s) (\<lambda>s.
     Option.bind (lit ''.'' s) (\<lambda>s.
     Option.bind (digits 2 s) (\<lambda>s.
     Option.bind (lit ''.'' s) (\<lambda>s.
     digits 2 s)))))) = Some r"
    by (cases "lit ''.'' s3") simp_all
  from r4 obtain s5 where 5: "digits 2 s4 = Some s5"
    and r5: "Option.bind (lit ''-'' s5) (\<lambda>s.
     Option.bind (digits 2 s) (\<lambda>s.
     Option.bind (lit ''.'' s) (\<lambda>s.
     Option.bind (digits 2 s) (\<lambda>s.
     Option.bind (lit ''.'' s) (\<lambda>s.
     digits 2 s))))) = Some r"
    by (cases "digits 2 s4") simp_all
  from r5 obtain s6 where 6: "lit ''-'' s5 = Some s6"
    and r6: "Option.bind (digits 2 s6) (\<lambda>s.
     Option.bind (lit ''.'' s) (\<lambda>s.
     Option.bind (digits 2 s) (\<lambda>s.
     Option.bind (lit ''.'' s) (\<lambda>s.
     digits 2 s)))) = Some r"
    by (cases "lit ''-'' s5") simp_all
  from r6 obtain s7 where 7: "digits 2 s6 = Some s7"
    and r7: "Option.bind (lit ''.'' s7) (\<lambda>s.
     Option.bind (digits 2 s) (\<lambda>s.
     Option.bind (lit ''.'' s) (\<lambda>s.
     digits 2 s))) = Some r"
    by (cases "digits 2 s6") simp_all
  from r7 obtain s8 where 8: "lit ''.'' s7 = Some s8"
    and r8: "Option.bind (digits 2 s8) (\<lambda>s.
     Option.bind (lit ''.'' s) (\<lambda>s.
     digits 2 s)) = Some r"
    by (cases "lit ''.'' s7") simp_all
  from r8 obtain s9 where 9: "digits 2 s8 = Some s9"
    and r9: "Option.bind (lit ''.'' s9) (\<lambda>s. digits 2 s) = Some r"
    by (cases "digits 2 s8") simp_all
  from r9 obtain s10 where 10: "lit ''.'' s9 = Some s10" and 11: "digits 2 s10 = Some r"
    by (cases "lit ''.'' s9") simp_all
  from 1 obtain y where y: "s = y @ s1" "digit_text 4 y" unfolding digits_Some by blast
  from 3 obtain m where m: "s2 = m @ s3" "digit_text 2 m" unfolding digits_Some by blast
  from 5 obtain d where d: "s4 = d @ s5" "digit_text 2 d" unfolding digits_Some by blast
  from 7 obtain hh where hh: "s6 = hh @ s7" "digit_text 2 hh" unfolding digits_Some by blast
  from 9 obtain mm where mm: "s8 = mm @ s9" "digit_text 2 mm" unfolding digits_Some by blast
  from 11 obtain ss where ss: "s10 = ss @ r" "digit_text 2 ss" unfolding digits_Some by blast
  from 2 have e2: "s1 = ''.'' @ s2" by (simp only: lit_Some)
  from 4 have e4: "s3 = ''.'' @ s4" by (simp only: lit_Some)
  from 6 have e6: "s5 = ''-'' @ s6" by (simp only: lit_Some)
  from 8 have e8: "s7 = ''.'' @ s8" by (simp only: lit_Some)
  from 10 have e10: "s9 = ''.'' @ s10" by (simp only: lit_Some)
  have "s = (y @ ''.'' @ m @ ''.'' @ d @ ''-'' @ hh @ ''.'' @ mm @ ''.'' @ ss) @ r"
    by (simp add: y(1) e2 m(1) e4 d(1) e6 hh(1) e8 mm(1) e10 ss(1))
  moreover have "timestamp_text (y @ ''.'' @ m @ ''.'' @ d @ ''-'' @ hh @ ''.'' @ mm @ ''.'' @ ss)"
    unfolding timestamp_text_def
    by (intro exI [of _ y] exI [of _ m] exI [of _ d] exI [of _ hh] exI [of _ mm] exI [of _ ss]
        conjI refl y(2) m(2) d(2) hh(2) mm(2) ss(2))
  ultimately show ?thesis by (rule_tac x = "y @ ''.'' @ m @ ''.'' @ d @ ''-'' @ hh @ ''.'' @ mm @ ''.'' @ ss" in exI) (rule conjI)
qed

lemma timestamp_Some:
  "timestamp s = Some r \<longleftrightarrow> (\<exists>ts. s = ts @ r \<and> timestamp_text ts)"
  using timestamp_parsed timestamp_text_parse by blast

lemma timestamp_text_length: "timestamp_text ts \<Longrightarrow> length ts = 19"
  by (auto simp: timestamp_text_def digit_text_def)

lemma ws_spaces: "list_all isspace w \<Longrightarrow> x \<noteq> [] \<Longrightarrow> \<not> isspace (hd x) \<Longrightarrow> ws (w @ x) = x"
proof (induction w)
  case Nil
  then show ?case by (cases x) (simp_all add: ws_def)
next
  case (Cons c w)
  then show ?case by (simp add: ws_def)
qed

lemma ws_split: "\<exists>w. s = w @ ws s \<and> list_all isspace w"
  by (intro exI [of _ "takeWhile isspace s"]) (auto simp: ws_def list_all_iff dest: set_takeWhileD)

lemma not_space: "\<not> isspace CHR ''-''" "\<not> isspace CHR ''C''" "\<not> isspace CHR ''S''"
  by code_simp+

lemma digit_not_space: "isdigit c \<Longrightarrow> \<not> isspace c"
  by (auto simp: isdigit_def isspace_def)

lemma timestamp_text_hd: "timestamp_text ts \<Longrightarrow> ts \<noteq> [] \<and> \<not> isspace (hd ts)"
proof -
  assume "timestamp_text ts"
  then obtain y m d hh mm ss where
    s: "ts = y @ ''.'' @ m @ ''.'' @ d @ ''-'' @ hh @ ''.'' @ mm @ ''.'' @ ss"
    and y: "digit_text 4 y"
    unfolding timestamp_text_def by blast
  from y obtain c cs where "y = c # cs" "isdigit c"
    by (cases y) (auto simp: digit_text_def)
  with s show ?thesis by (simp add: digit_not_space)
qed

lemma tail_text_match:
  assumes "tail_text s g2"
  shows "match_tail s = Some g2"
proof -
  from assms obtain w1 w2 w3 w4 w5 rest where
    s: "s = w1 @ ''-'' @ w2 @ ''Challenge'' @ w3 @ ''-'' @ w4 @ g2 @ w5 @ ''Stats.csv'' @ rest"
    and w: "list_all isspace w1" "list_all isspace w2" "list_all isspace w3"
    "list_all isspace w4" "list_all isspace w5"
    and g: "timestamp_text g2"
    unfolding tail_text_def by blast
  from g have g': "g2 @ w5 @ ''Stats.csv'' @ rest \<noteq> []"
    "\<not> isspace (hd (g2 @ w5 @ ''Stats.csv'' @ rest))"
    using timestamp_text_hd [of g2] by simp_all
  have 1: "ws s = ''-'' @ w2 @ ''Challenge'' @ w3 @ ''-'' @ w4 @ g2 @ w5 @ ''Stats.csv'' @ rest"
    unfolding s using w(1) by (rule ws_spaces) (simp_all add: not_space)
  have 2: "ws (w2 @ ''Challenge'' @ w3 @ ''-'' @ w4 @ g2 @ w5 @ ''Stats.csv'' @ rest)
      = ''Challenge'' @ w3 @ ''-'' @ w4 @ g2 @ w5 @ ''Stats.csv'' @ rest"
    using w(2) by (rule ws_spaces) (simp_all add: not_space)
  have 3: "ws (w3 @ ''-'' @ w4 @ g2 @ w5 @ ''Stats.csv'' @ rest)
      = ''-'' @ w4 @ g2 @ w5 @ ''Stats.csv'' @ rest"
    using w(3) by (rule ws_spaces) (simp_all add: not_space)
  have 4: "ws (w4 @ g2 @ w5 @ ''Stats.csv'' @ rest) = g2 @ w5 @ ''Stats.csv'' @ rest"
    using w(4) g' by (rule ws_spaces)
  have 5: "timestamp (g2 @ w5 @ ''Stats.csv'' @ rest) = Some (w5 @ ''Stats.csv'' @ rest)"
    using g by (rule timestamp_text_parse)
  have 6: "ws (w5 @ ''Stats.csv'' @ rest) = ''Stats.csv'' @ rest"
    using w(5) by (rule ws_spaces) (simp_all add: not_space)
  have 7: "take 19 (g2 @ w5 @ ''Stats.csv'' @ rest) = g2"
    using timestamp_text_length [OF g] by simp
  show ?thesis
    unfolding match_tail_def
    by (simp only: 1 2 3 4 5 6 7 lit_append Option.bind.simps Let_def)
qed

lemma match_tail_text:
  assumes "match_tail s = Some g2"
  shows "tail_text s g2"
proof -
  from assms obtain a1 where 1: "lit ''-'' (ws s) = Some a1"
    and r1: "Option.bind (lit ''Challenge'' (ws a1)) (\<lambda>s.
       Option.bind (lit ''-'' (ws s)) (\<lambda>s.
       (let t = ws s in
        Option.bind (timestamp t) (\<lambda>s.
        Option.bind (lit ''Stats.csv'' (ws s)) (\<lambda>s.
        Some (take 19 t)))))) = Some g2"
    unfolding match_tail_def by (cases "lit ''-'' (ws s)") simp_all
  from r1 obtain a2 where 2: "lit ''Challenge'' (ws a1) = Some a2"
    and r2: "Option.bind (lit ''-'' (ws a2)) (\<lambda>s.
       (let t = ws s in
        Option.bind (timestamp t) (\<lambda>s.
        Option.bind (lit ''Stats.csv'' (ws s)) (\<lambda>s.
        Some (take 19 t))))) = Some g2"
    by (cases "lit ''Challenge'' (ws a1)") simp_all
  from r2 obtain a3 where 3: "lit ''-'' (ws a2) = Some a3"
    and r3: "Option.bind (timestamp (ws a3)) (\<lambda>s.
        Option.bind (lit ''Stats.csv'' (ws s)) (\<lambda>s.
        Some (take 19 (ws a3)))) = Some g2"
    by (cases "lit ''-'' (ws a2)") (simp_all add: Let_def)
  from r3 obtain a4 where 4: "timestamp (ws a3) = Some a4"
    and r4: "Option.bind (lit ''Stats.csv'' (ws a4)) (\<lambda>s. Some (take 19 (ws a3))) = Some g2"
    by (cases "timestamp (ws a3)") simp_all
  from r4 obtain a5 where 5: "lit ''Stats.csv'' (ws a4) = Some a5"
    and 6: "take 19 (ws a3) = g2"
    by (cases "lit ''Stats.csv'' (ws a4)") simp_all
  obtain w1 where w1: "s = w1 @ ws s" "list_all isspace w1" using ws_split by blast
  obtain w2 where w2: "a1 = w2 @ ws a1" "list_all isspace w2" using ws_split by blast
  obtain w3 where w3: "a2 = w3 @ ws a2" "list_all isspace w3" using ws_split by blast
  obtain w4 where w4: "a3 = w4 @ ws a3" "list_all isspace w4" using ws_split by blast
  obtain w5 where w5: "a4 = w5 @ ws a4" "list_all isspace w5" using ws_split by blast
  from 4 obtain ts where ts: "ws a3 = ts @ a4" "timestamp_text ts"
    using timestamp_parsed by blast
  from 6 have g: "ts = g2" using timestamp_text_length [OF ts(2)] by (simp add: ts(1))
  from 1 have e1: "ws s = ''-'' @ a1" by (simp only: lit_Some)
  from 2 have e2: "ws a1 = ''Challenge'' @ a2" by (simp only: lit_Some)
  from 3 have e3: "ws a2 = ''-'' @ a3" by (simp only: lit_Some)
  from 5 have e5: "ws a4 = ''Stats.csv'' @ a5" by (simp only: lit_Some)
  have f5: "a4 = w5 @ ''Stats.csv'' @ a5" by (subst w5(1)) (simp only: e5)
  have f4: "a3 = w4 @ g2 @ a4" by (subst w4(1)) (simp only: ts(1) g)
  have f3: "a2 = w3 @ ''-'' @ a3" by (subst w3(1)) (simp only: e3)
  have f2: "a1 = w2 @ ''Challenge'' @ a2" by (subst w2(1)) (simp only: e2)
  have f1: "s = w1 @ ''-'' @ a1" by (subst w1(1)) (simp only: e1)
  have "s = w1 @ ''-'' @ w2 @ ''Challenge'' @ w3 @ ''-'' @ w4 @ g2 @ w5 @ ''Stats.csv'' @ a5"
    by (subst f1, subst f2, subst f3, subst f4, subst f5) (rule refl)
  moreover note w1(2) w2(2) w3(2) w4(2) w5(2)
  moreover from ts(2) g have "timestamp_text g2" by simp
  ultimately show ?thesis
    unfolding tail_text_def by blast
qed

lemma match_tail_Some: "match_tail s = Some g2 \<longleftrightarrow> tail_text s g2"
  using match_tail_text tail_text_match by blast

lemma match_tail_None: "match_tail s = None \<longleftrightarrow> (\<forall>g. \<not> tail_text s g)"
  by (metis match_tail_Some not_Some_eq option.distinct(1))


lemma match_from_Some:
  "match_from pre s = Some (g1, g2) \<longleftrightarrow>
     (\<exists>a b. s = a @ b \<and> g1 = rev pre @ a \<and> match_tail b = Some g2 \<and> CHR 0x0A \<notin> set a
        \<and> (\<forall>a' b'. s = a' @ b' \<and> length a' < length a \<longrightarrow> match_tail b' = None))"
proof (induction s arbitrary: pre)
  case Nil
  show ?case by (cases "match_tail []") auto
next
  case (Cons c cs)
  show ?case
  proof (cases "match_tail (c # cs)")
    case (Some g)
    have "(\<exists>a b. c # cs = a @ b \<and> g1 = rev pre @ a \<and> match_tail b = Some g2
        \<and> CHR 0x0A \<notin> set a
        \<and> (\<forall>a' b'. c # cs = a' @ b' \<and> length a' < length a \<longrightarrow> match_tail b' = None))
      \<longleftrightarrow> g1 = rev pre \<and> g2 = g"
    proof
      assume "\<exists>a b. c # cs = a @ b \<and> g1 = rev pre @ a \<and> match_tail b = Some g2
        \<and> CHR 0x0A \<notin> set a
        \<and> (\<forall>a' b'. c # cs = a' @ b' \<and> length a' < length a \<longrightarrow> match_tail b' = None)"
      then obtain a b where ab: "c # cs = a @ b" "g1 = rev pre @ a" "match_tail b = Some g2"
        and least: "\<forall>a' b'. c # cs = a' @ b' \<and> length a' < length a \<longrightarrow> match_tail b' = None"
        by blast
      have "a = []"
      proof (rule ccontr)
        assume "a \<noteq> []"
        then have "c # cs = [] @ (c # cs) \<and> length ([] :: string) < length a" by simp
        with least have "match_tail (c # cs) = None" by blast
        with Some show False by simp
      qed
      with ab Some show "g1 = rev pre \<and> g2 = g" by simp
    next
      assume "g1 = rev pre \<and> g2 = g"
      with Some show "\<exists>a b. c # cs = a @ b \<and> g1 = rev pre @ a \<and> match_tail b = Some g2
        \<and> CHR 0x0A \<notin> set a
        \<and> (\<forall>a' b'. c # cs = a' @ b' \<and> length a' < length a \<longrightarrow> match_tail b' = None)"
        by (intro exI [of _ "[]"] exI [of _ "c # cs"]) simp
    qed
    with Some show ?thesis by auto
  next
    case None
    show ?thesis
    proof (cases "c = CHR 0x0A")
      case True
      have "\<not> (\<exists>a b. c # cs = a @ b \<and> g1 = rev pre @ a \<and> match_tail b = Some g2
        \<and> CHR 0x0A \<notin> set a
        \<and> (\<forall>a' b'. c # cs = a' @ b' \<and> length a' < length a \<longrightarrow> match_tail b' = None))"
      proof
        assume "\<exists>a b. c # cs = a @ b \<and> g1 = rev pre @ a \<and> match_tail b = Some g2
          \<and> CHR 0x0A \<notin> set a
          \<and> (\<forall>a' b'. c # cs = a' @ b' \<and> length a' < length a \<longrightarrow> match_tail b' = None)"
        then obtain a b where ab: "c # cs = a @ b" "match_tail b = Some g2" "CHR 0x0A \<notin> set a"
          by blast
        show False
        proof (cases a)
          case Nil
          with ab None show False by simp
        next
          case (Cons x xs)
          with ab True show False by simp
        qed
      qed
      with None True show ?thesis by simp
    next
      case False
      have "(\<exists>a b. c # cs = a @ b \<and> g1 = rev pre @ a \<and> match_tail b = Some g2
          \<and> CHR 0x0A \<notin> set a
          \<and> (\<forall>a' b'. c # cs = a' @ b' \<and> length a' < length a \<longrightarrow> match_tail b' = None))
        \<longleftrightarrow> (\<exists>a b. cs = a @ b \<and> g1 = rev (c # pre) @ a \<and> match_tail b = Some g2
          \<and> CHR 0x0A \<notin> set a
          \<and> (\<forall>a' b'. cs = a' @ b' \<and> length a' < length a \<longrightarrow> match_tail b' = None))"
      proof
        assume "\<exists>a b. c # cs = a @ b \<and> g1 = rev pre @ a \<and> match_tail b = Some g2
          \<and> CHR 0x0A \<notin> set a
          \<and> (\<forall>a' b'. c # cs = a' @ b' \<and> length a' < length a \<longrightarrow> match_tail b' = None)"
        then obtain a b where ab: "c # cs = a @ b" "g1 = rev pre @ a" "match_tail b = Some g2"
          "CHR 0x0A \<notin> set a"
          and least: "\<And>a' b'. c # cs = a' @ b' \<Longrightarrow> length a' < length a \<Longrightarrow> match_tail b' = None"
          by blast
        from ab None obtain xs where a: "a = c # xs" by (cases a) auto
        have "\<And>a' b'. cs = a' @ b' \<Longrightarrow> length a' < length xs \<Longrightarrow> match_tail b' = None"
          using least [of "c # _"] a by simp
        with ab a show "\<exists>a b. cs = a @ b \<and> g1 = rev (c # pre) @ a \<and> match_tail b = Some g2
          \<and> CHR 0x0A \<notin> set a
          \<and> (\<forall>a' b'. cs = a' @ b' \<and> length a' < length a \<longrightarrow> match_tail b' = None)"
          by (intro exI [of _ xs] exI [of _ b]) simp
      next
        assume "\<exists>a b. cs = a @ b \<and> g1 = rev (c # pre) @ a \<and> match_tail b = Some g2
          \<and> CHR 0x0A \<notin> set a
          \<and> (\<forall>a' b'. cs = a' @ b' \<and> length a' < length a \<longrightarrow> match_tail b' = None)"
        then obtain a b where ab: "cs = a @ b" "g1 = rev (c # pre) @ a" "match_tail b = Some g2"
          "CHR 0x0A \<notin> set a"
          and least: "\<And>a' b'. cs = a' @ b' \<Longrightarrow> length a' < length a \<Longrightarrow> match_tail b' = None"
          by blast
        have "match_tail b' = None" if "c # cs = a' @ b'" "length a' < length (c # a)" for a' b'
        proof (cases a')
          case Nil
          with that None show ?thesis by simp
        next
          case (Cons x xs)
          with that least [of xs b'] show ?thesis by simp
        qed
        with ab False show "\<exists>a b. c # cs = a @ b \<and> g1 = rev pre @ a \<and> match_tail b = Some g2
          \<and> CHR 0x0A \<notin> set a
          \<and> (\<forall>a' b'. c # cs = a' @ b' \<and> length a' < length a \<longrightarrow> match_tail b' = None)"
          by (intro exI [of _ "c # a"] exI [of _ b]) simp
      qed
      with None False Cons.IH [of "c # pre"] show ?thesis by simp
    qed
  qed
qed

lemma re_match_lazy: "re_match name = Some (g1, g2) \<longleftrightarrow> lazy_match name g1 g2"
proof -
  have "re_match name = Some (g1, g2) \<longleftrightarrow>
     (\<exists>b. name = g1 @ b \<and> match_tail b = Some g2 \<and> CHR 0x0A \<notin> set g1
        \<and> (\<forall>a' b'. name = a' @ b' \<and> length a' < length g1 \<longrightarrow> match_tail b' = None))"
    unfolding re_match_def match_from_Some by auto
  then show ?thesis
    unfolding lazy_match_def match_tail_Some match_tail_None by blast
qed

section \<open>Aggregation\<close>

lemma list_all_update:
  "list_all P es \<Longrightarrow> P (k, v) \<Longrightarrow> list_all P (AList.update k v es)"
  by (induction es) auto

lemma set_nested_shape:
  assumes "index_shape v0 d"
  shows "\<exists>d'. set_nested d t k x = Inr d' \<and> index_shape v0 d'
     \<and> (\<forall>t' k'. lookup2 d' t' k' = (if t' = t \<and> k' = k then Some x else lookup2 d t' k'))"
proof (cases "map_of (entries d) t")
  case None
  define inner where "inner = \<lparr>default_factory = Some v0, entries = [(k, x)]\<rparr>"
  define d' where "d' = d\<lparr>entries := AList.update t inner (entries d @ [(t, \<lparr>default_factory = Some v0, entries = []\<rparr>)])\<rparr>"
  have s: "set_nested d t k x = Inr d'"
    using assms None
    by (simp add: set_nested_def dd_getitem_def dd_setitem_def index_shape_def d'_def inner_def)
  have sh: "index_shape v0 d'"
    using assms by (simp add: index_shape_def d'_def inner_def list_all_update)
  have m: "map_of (entries d') = (map_of (entries d))(t \<mapsto> inner)"
    by (auto simp: d'_def update_conv' fun_eq_iff map_add_def split: option.splits)
  have "lookup2 d' t' k' = (if t' = t \<and> k' = k then Some x else lookup2 d t' k')" for t' k'
    using None by (simp add: lookup2_def m inner_def)
  with s sh show ?thesis by blast
next
  case (Some inner0)
  then have "(t, inner0) \<in> set (entries d)" by (rule map_of_SomeD)
  with assms have f: "default_factory inner0 = Some v0"
    by (auto simp: index_shape_def list_all_iff)
  define inner where "inner = inner0\<lparr>entries := AList.update k x (entries inner0)\<rparr>"
  define d' where "d' = d\<lparr>entries := AList.update t inner (entries d)\<rparr>"
  have s: "set_nested d t k x = Inr d'"
    using Some by (simp add: set_nested_def dd_getitem_def dd_setitem_def d'_def inner_def)
  have sh: "index_shape v0 d'"
    using assms f by (simp add: index_shape_def d'_def inner_def list_all_update)
  have m: "map_of (entries d') = (map_of (entries d))(t \<mapsto> inner)"
    by (simp add: d'_def update_conv')
  have "lookup2 d' t' k' = (if t' = t \<and> k' = k then Some x else lookup2 d t' k')" for t' k'
    using Some by (simp add: lookup2_def m inner_def update_conv')
  with s sh show ?thesis by blast
qed


lemma load_file_raises:
  "fst (parse_kovaaks_csv pd w p) = Inl e \<Longrightarrow> load_file pd w f p t k st = report f e st"
  by (simp add: load_file_def)

lemma load_file_parsed:
  assumes "shaped st" and "fst (parse_kovaaks_csv pd w p) = Inr (m, wd, s)"
  shows "shaped (load_file pd w f p t k st)
     \<and> (\<forall>t' k'. lookup2 (main_data (load_file pd w f p t k st)) t' k'
           = (if t' = t \<and> k' = k then Some m else lookup2 (main_data st) t' k'))
     \<and> (\<forall>t' k'. lookup2 (weapon_data (load_file pd w f p t k st)) t' k'
           = (if t' = t \<and> k' = k then Some wd else lookup2 (weapon_data st) t' k'))
     \<and> (\<forall>t' k'. lookup2 (stats_data (load_file pd w f p t k st)) t' k'
           = (if t' = t \<and> k' = k then Some s else lookup2 (stats_data st) t' k'))
     \<and> processed (load_file pd w f p t k st) = processed st + 1
     \<and> filter is_error (printed (load_file pd w f p t k st)) = filter is_error (printed st)"
proof -
  from assms(1) obtain md where md: "set_nested (main_data st) t k m = Inr md"
    "index_shape empty_frame md"
    "\<forall>t' k'. lookup2 md t' k' = (if t' = t \<and> k' = k then Some m else lookup2 (main_data st) t' k')"
    using set_nested_shape [of empty_frame "main_data st" t k m] by (auto simp: shaped_def)
  from assms(1) obtain wdd where wdd: "set_nested (weapon_data st) t k wd = Inr wdd"
    "index_shape empty_frame wdd"
    "\<forall>t' k'. lookup2 wdd t' k' = (if t' = t \<and> k' = k then Some wd else lookup2 (weapon_data st) t' k')"
    using set_nested_shape [of empty_frame "weapon_data st" t k wd] by (auto simp: shaped_def)
  from assms(1) obtain sd where sd: "set_nested (stats_data st) t k s = Inr sd"
    "index_shape [] sd"
    "\<forall>t' k'. lookup2 sd t' k' = (if t' = t \<and> k' = k then Some s else lookup2 (stats_data st) t' k')"
    using set_nested_shape [of "[]" "stats_data st" t k s] by (auto simp: shaped_def)
  have eq: "load_file pd w f p t k st =
      st\<lparr>main_data := md, weapon_data := wdd, stats_data := sd,
         processed := processed st + 1,
         printed := printed st @ (if (processed st + 1) mod 10 = 0
                                  then [Processed (processed st + 1)] else [])\<rparr>"
    using assms(2) md(1) wdd(1) sd(1) by (simp add: load_file_def Let_def)
  show ?thesis
    unfolding eq using md(2,3) wdd(2,3) sd(2,3)
    by (simp add: shaped_def is_error_def)
qed

lemma shaped_report: "shaped (report f e st) = shaped st"
  by (simp add: shaped_def report_def)

lemma process_entry_candidate:
  "process_entry pd w csv_dir st filename =
     (case candidate filename of
        None \<Rightarrow> st
      | Some (task, date) \<Rightarrow>
          load_file pd w filename (path_join csv_dir filename) task date st)"
  by (simp add: process_entry_def candidate_def split: option.splits)

lemma map_of_append_case:
  "map_of (xs @ ys) k = (case map_of xs k of Some v \<Rightarrow> Some v | None \<Rightarrow> map_of ys k)"
  by (simp add: map_add_def split: option.splits)

lemma loaded_single_rev: "rev (loaded pd w dir [f]) = loaded pd w dir [f]"
  by (simp add: loaded_def split: option.splits sum.splits)

lemma lookup_combine:
  assumes "\<And>t d. A2 t d = (case map_of (rev L2) (t, d) of Some r \<Rightarrow> Some (g r) | None \<Rightarrow> A1 t d)"
    and "\<And>t d. A1 t d = (case map_of L1 (t, d) of Some r \<Rightarrow> Some (g r) | None \<Rightarrow> A0 t d)"
    and "rev L1 = L1"
  shows "A2 t d = (case map_of (rev (L1 @ L2)) (t, d) of Some r \<Rightarrow> Some (g r) | None \<Rightarrow> A0 t d)"
proof -
  have m: "map_of (rev (L1 @ L2)) (t, d)
      = (case map_of (rev L2) (t, d) of Some v \<Rightarrow> Some v | None \<Rightarrow> map_of L1 (t, d))"
    using assms(3) by (simp add: map_add_def split: option.splits)
  show ?thesis
  proof (cases "map_of (rev L2) (t, d)")
    case None
    with m have "map_of (rev (L1 @ L2)) (t, d) = map_of L1 (t, d)" by simp
    moreover from None have "A2 t d = A1 t d" by (simp add: assms(1))
    ultimately show ?thesis by (simp add: assms(2))
  next
    case (Some v)
    with m have "map_of (rev (L1 @ L2)) (t, d) = Some v" by simp
    moreover from Some have "A2 t d = Some (g v)" by (simp add: assms(1))
    ultimately show ?thesis by simp
  qed
qed

lemma fold_entries:
  assumes "shaped st"
  shows "shaped (foldl (process_entry pd w dir) st names)
     \<and> (\<forall>t d. lookup2 (main_data (foldl (process_entry pd w dir) st names)) t d
           = (case map_of (rev (loaded pd w dir names)) (t, d) of
                Some r \<Rightarrow> Some (fst r)
              | None \<Rightarrow> lookup2 (main_data st) t d))
     \<and> (\<forall>t d. lookup2 (weapon_data (foldl (process_entry pd w dir) st names)) t d
           = (case map_of (rev (loaded pd w dir names)) (t, d) of
                Some r \<Rightarrow> Some (fst (snd r))
              | None \<Rightarrow> lookup2 (weapon_data st) t d))
     \<and> (\<forall>t d. lookup2 (stats_data (foldl (process_entry pd w dir) st names)) t d
           = (case map_of (rev (loaded pd w dir names)) (t, d) of
                Some r \<Rightarrow> Some (snd (snd r))
              | None \<Rightarrow> lookup2 (stats_data st) t d))
     \<and> processed (foldl (process_entry pd w dir) st names)
           = processed st + length (loaded pd w dir names)
     \<and> filter is_error (printed (foldl (process_entry pd w dir) st names))
           = filter is_error (printed st) @ failures pd w dir names"
  using assms
proof (induction names arbitrary: st)
  case Nil
  then show ?case by (simp add: loaded_def failures_def)
next
  case (Cons f fs)
  define st1 where "st1 = process_entry pd w dir st f"
  have step: "shaped st1
     \<and> (\<forall>t d. lookup2 (main_data st1) t d
           = (case map_of (loaded pd w dir [f]) (t, d) of
                Some r \<Rightarrow> Some (fst r) | None \<Rightarrow> lookup2 (main_data st) t d))
     \<and> (\<forall>t d. lookup2 (weapon_data st1) t d
           = (case map_of (loaded pd w dir [f]) (t, d) of
                Some r \<Rightarrow> Some (fst (snd r)) | None \<Rightarrow> lookup2 (weapon_data st) t d))
     \<and> (\<forall>t d. lookup2 (stats_data st1) t d
           = (case map_of (loaded pd w dir [f]) (t, d) of
                Some r \<Rightarrow> Some (snd (snd r)) | None \<Rightarrow> lookup2 (stats_data st) t d))
     \<and> processed st1 = processed st + length (loaded pd w dir [f])
     \<and> filter is_error (printed st1) = filter is_error (printed st) @ failures pd w dir [f]"
  proof (cases "candidate f")
    case None
    then show ?thesis
      using Cons.prems by (simp add: st1_def process_entry_candidate loaded_def failures_def)
  next
    case (Some ident)
    obtain t k where ident: "ident = (t, k)" by (cases ident)
    show ?thesis
    proof (cases "fst (parse_kovaaks_csv pd w (path_join dir f))")
      case (Inl e)
      then have "st1 = report f e st"
        using Some ident by (simp add: st1_def process_entry_candidate load_file_raises)
      then show ?thesis
        using Cons.prems Some Inl
        by (simp add: shaped_report loaded_def failures_def) (simp add: report_def is_error_def)
    next
      case (Inr r)
      obtain m wd s where r: "r = (m, wd, s)" by (cases r)
      have st1: "st1 = load_file pd w f (path_join dir f) t k st"
        using Some ident by (simp add: st1_def process_entry_candidate)
      from load_file_parsed [OF Cons.prems, of pd w "path_join dir f" m wd s f t k] Inr r
      show ?thesis
        unfolding st1 using Some ident by (simp add: loaded_def failures_def)
    qed
  qed
  have l: "loaded pd w dir (f # fs) = loaded pd w dir [f] @ loaded pd w dir fs"
    by (simp add: loaded_def)
  have fl: "failures pd w dir (f # fs) = failures pd w dir [f] @ failures pd w dir fs"
    by (simp add: failures_def)
  have fo: "foldl (process_entry pd w dir) st (f # fs) = foldl (process_entry pd w dir) st1 fs"
    by (simp add: st1_def)
  from step have sh: "shaped st1" by blast
  note ih = Cons.IH [OF sh]
  have a: "shaped (foldl (process_entry pd w dir) st1 fs)" using ih by blast
  have b: "lookup2 (main_data (foldl (process_entry pd w dir) st1 fs)) t d
      = (case map_of (rev (loaded pd w dir [f] @ loaded pd w dir fs)) (t, d) of
           Some r \<Rightarrow> Some (fst r) | None \<Rightarrow> lookup2 (main_data st) t d)" for t d
    by (rule lookup_combine [where ?A1.0 = "lookup2 (main_data st1)"])
      (use ih step in \<open>simp_all add: loaded_single_rev\<close>)
  have c: "lookup2 (weapon_data (foldl (process_entry pd w dir) st1 fs)) t d
      = (case map_of (rev (loaded pd w dir [f] @ loaded pd w dir fs)) (t, d) of
           Some r \<Rightarrow> Some (fst (snd r)) | None \<Rightarrow> lookup2 (weapon_data st) t d)" for t d
    by (rule lookup_combine [where ?A1.0 = "lookup2 (weapon_data st1)"])
      (use ih step in \<open>simp_all add: loaded_single_rev\<close>)
  have e: "lookup2 (stats_data (foldl (process_entry pd w dir) st1 fs)) t d
      = (case map_of (rev (loaded pd w dir [f] @ loaded pd w dir fs)) (t, d) of
           Some r \<Rightarrow> Some (snd (snd r)) | None \<Rightarrow> lookup2 (stats_data st) t d)" for t d
    by (rule lookup_combine [where ?A1.0 = "lookup2 (stats_data st1)"])
      (use ih step in \<open>simp_all add: loaded_single_rev\<close>)
  have g: "processed (foldl (process_entry pd w dir) st1 fs)
      = processed st + length (loaded pd w dir [f] @ loaded pd w dir fs)"
    using ih step by simp
  have h: "filter is_error (printed (foldl (process_entry pd w dir) st1 fs))
      = filter is_error (printed st) @ failures pd w dir [f] @ failures pd w dir fs"
    using ih step by simp
  show ?case
    unfolding fo l fl using a b c e g h by blast
qed

lemma shaped_initial: "shaped initial"
  by (simp add: shaped_def index_shape_def initial_def)


lemma load_all_listed:
  "listdir w csv_dir = Inr names \<Longrightarrow>
   load_all_kovaaks_data pd w csv_dir =
     Inr ((main_data (foldl (process_entry pd w csv_dir) initial names),
           weapon_data (foldl (process_entry pd w csv_dir) initial names),
           stats_data (foldl (process_entry pd w csv_dir) initial names)),
          printed (foldl (process_entry pd w csv_dir) initial names)
            @ [TotalProcessed (processed (foldl (process_entry pd w csv_dir) initial names)),
               UniqueTasks (length (entries (main_data
                 (foldl (process_entry pd w csv_dir) initial names))))])"
  by (simp add: load_all_kovaaks_data_def Let_def)


lemma sample_listing:
  "listdir sample_world ''stats''
     = Inr [''A - Challenge - 2024.01.15-10.30.00 Stats.csv'',
            ''C - Challenge - 2024.01.16-10.30.00 Stats.csv'',
            ''A - Challenge - 2024.01.16-10.30.00 Stats.csv'',
            ''B - Challenge - 2024.01.16-10.30.00 Stats.csv'']"
  by (simp add: sample_world_def)




lemma sample_mains:
  "fst (fst (projr (load_all_kovaaks_data plain_pandas sample_world ''stats'')))
     = \<lparr>default_factory = Some \<lparr>default_factory = Some empty_frame, entries = []\<rparr>,
        entries =
          [(''A'', \<lparr>default_factory = Some empty_frame,
                    entries = [(''2024.01.15-10.30.00'', \<lparr>columns = [''h''], rows = []\<rparr>),
                               (''2024.01.16-10.30.00'', empty_frame)]\<rparr>),
           (''B'', \<lparr>default_factory = Some empty_frame,
                    entries = [(''2024.01.16-10.30.00'', empty_frame)]\<rparr>)]\<rparr>"
  by code_simp

section \<open>The returned mappings\<close>

lemma shape_vivifies:
  assumes "index_shape v0 d"
  shows "auto_vivifying v0 d"
  unfolding auto_vivifying_def
proof (intro allI conjI impI)
  fix task date
  assume "map_of (entries d) task = None"
  with assms show "\<exists>inner. dd_getitem d task = (Inr inner, d\<lparr>entries := entries d @ [(task, inner)]\<rparr>)
              \<and> entries inner = []
              \<and> dd_getitem inner date = (Inr v0, inner\<lparr>entries := [(date, v0)]\<rparr>)"
    by (intro exI [of _ "\<lparr>default_factory = Some v0, entries = []\<rparr>"])
      (simp add: dd_getitem_def index_shape_def)
next
  fix task date inner
  assume a: "map_of (entries d) task = Some inner \<and> map_of (entries inner) date = None"
  then have "(task, inner) \<in> set (entries d)" by (auto dest: map_of_SomeD)
  with assms have "default_factory inner = Some v0"
    by (auto simp: index_shape_def list_all_iff)
  with a show "dd_getitem inner date = (Inr v0, inner\<lparr>entries := entries inner @ [(date, v0)]\<rparr>)"
    by (simp add: dd_getitem_def)
qed

text \<open>
  C10. The three mappings returned are the \<open>defaultdict\<close> objects of lines 120 to
  122, with inner dictionaries that are \<open>defaultdict\<close> objects too: looking up a task
  name that was never inserted raises no \<open>KeyError\<close>, returns a new empty inner
  dictionary and inserts it; looking up any timestamp there, or a timestamp never
  inserted under a task that is there, returns the empty default (\<open>pd.DataFrame()\<close>
  for the event and weapon indices, the empty dictionary for the stats index) and
  inserts it.
\<close>

theorem returned_indices_auto_vivify:
  assumes "load_all_kovaaks_data pd w csv_dir = Inr ((mains, weapons, stats), out)"
  shows "auto_vivifying empty_frame mains \<and> auto_vivifying empty_frame weapons
     \<and> auto_vivifying [] stats"
proof -
  from assms obtain names where n: "listdir w csv_dir = Inr names"
    by (cases "listdir w csv_dir") (simp_all add: load_all_kovaaks_data_def)
  have "shaped (foldl (process_entry pd w csv_dir) initial names)"
    using fold_entries [OF shaped_initial] by blast
  moreover from assms n have "mains = main_data (foldl (process_entry pd w csv_dir) initial names)"
    "weapons = weapon_data (foldl (process_entry pd w csv_dir) initial names)"
    "stats = stats_data (foldl (process_entry pd w csv_dir) initial names)"
    by (simp_all add: load_all_listed)
  ultimately show ?thesis by (simp add: shaped_def shape_vivifies)
qed

theorem returned_indices_auto_vivify_witness:
  "\<exists>mains weapons stats out inner.
     load_all_kovaaks_data plain_pandas sample_world ''stats'' = Inr ((mains, weapons, stats), out)
     \<and> dd_getitem mains ''Tracking''
         = (Inr inner, mains\<lparr>entries := entries mains @ [(''Tracking'', inner)]\<rparr>)
     \<and> dd_getitem inner ''2024.02.01-09.00.00''
         = (Inr empty_frame, inner\<lparr>entries := [(''2024.02.01-09.00.00'', empty_frame)]\<rparr>)"
proof -
  define st where "st = foldl (process_entry plain_pandas sample_world ''stats'') initial
      [''A - Challenge - 2024.01.15-10.30.00 Stats.csv'',
       ''C - Challenge - 2024.01.16-10.30.00 Stats.csv'',
       ''A - Challenge - 2024.01.16-10.30.00 Stats.csv'',
       ''B - Challenge - 2024.01.16-10.30.00 Stats.csv'']"
  have r: "load_all_kovaaks_data plain_pandas sample_world ''stats''
      = Inr ((main_data st, weapon_data st, stats_data st),
             printed st @ [TotalProcessed (processed st),
                           UniqueTasks (length (entries (main_data st)))])"
    unfolding st_def by (rule load_all_listed [OF sample_listing])
  from returned_indices_auto_vivify [OF r]
  have v: "auto_vivifying empty_frame (main_data st)" by blast
  have "map_of (entries (main_data st)) ''Tracking'' = None"
    using sample_mains by (simp add: r)
  with v obtain inner where
    "dd_getitem (main_data st) ''Tracking''
       = (Inr inner, (main_data st)\<lparr>entries := entries (main_data st) @ [(''Tracking'', inner)]\<rparr>)"
    "dd_getitem inner ''2024.02.01-09.00.00''
       = (Inr empty_frame, inner\<lparr>entries := [(''2024.02.01-09.00.00'', empty_frame)]\<rparr>)"
    unfolding auto_vivifying_def by blast
  with r show ?thesis by blast
qed

section \<open>Which directory entries are loaded\<close>

lemma candidate_lazy:
  "candidate filename = Some (task, date) \<longleftrightarrow>
     endswith filename ''.csv'' \<and> (\<exists>g1. lazy_match filename g1 date \<and> task = strip g1)"
proof (cases "endswith filename ''.csv''")
  case False
  then show ?thesis by (simp add: candidate_def)
next
  case True
  have "map_option (\<lambda>(g1, g2). (strip g1, g2)) (re_match filename) = Some (task, date)
      \<longleftrightarrow> (\<exists>g1. re_match filename = Some (g1, date) \<and> task = strip g1)"
    by (cases "re_match filename") auto
  with True show ?thesis by (simp add: candidate_def re_match_lazy)
qed

lemma tail_text_space: "tail_text b g2 \<Longrightarrow> isspace c \<Longrightarrow> tail_text (c # b) g2"
proof -
  assume "tail_text b g2" and c: "isspace c"
  then obtain w1 w2 w3 w4 w5 rest where
    s: "b = w1 @ ''-'' @ w2 @ ''Challenge'' @ w3 @ ''-'' @ w4 @ g2 @ w5 @ ''Stats.csv'' @ rest"
    and w: "list_all isspace w1" "list_all isspace w2" "list_all isspace w3"
    "list_all isspace w4" "list_all isspace w5"
    and g: "timestamp_text g2"
    unfolding tail_text_def by blast
  have "c # b = (c # w1) @ ''-'' @ w2 @ ''Challenge'' @ w3 @ ''-'' @ w4 @ g2 @ w5 @ ''Stats.csv'' @ rest"
    by (subst s) simp
  moreover from c w(1) have "list_all isspace (c # w1)" by simp
  moreover note w(2-5) g
  ultimately show ?thesis unfolding tail_text_def by blast
qed

lemma lazy_match_trimmed:
  assumes "lazy_match name g1 g2"
  shows "rstrip g1 = g1"
proof (cases "g1 = []")
  case True
  then show ?thesis by (simp add: rstrip_def)
next
  case False
  from assms obtain b where b: "name = g1 @ b" "tail_text b g2"
    and least: "\<And>a' b' g'. name = a' @ b' \<Longrightarrow> length a' < length g1 \<Longrightarrow> \<not> tail_text b' g'"
    unfolding lazy_match_def by blast
  have "\<not> isspace (last g1)"
  proof
    assume "isspace (last g1)"
    with b(2) have "tail_text (last g1 # b) g2" by (rule tail_text_space)
    moreover from False b(1) have "name = butlast g1 @ (last g1 # b)" by simp
    moreover from False have "length (butlast g1) < length g1" by simp
    ultimately show False using least by blast
  qed
  with False have "dropWhile isspace (rev g1) = rev g1"
    by (cases "rev g1") (auto simp: last_rev hd_rev [symmetric] simp flip: hd_rev)
  then show ?thesis by (simp add: rstrip_def)
qed

lemma report_eq: "report f e st = st\<lparr>printed := printed st @ [ErrorProcessing f e]\<rparr>"
  by (simp add: report_def)

text \<open>
  C3, as the code has it. A directory entry whose name gives no identity leaves the
  indices and the printed lines as they are; one that gives the identity
  \<open>(task, date)\<close> is loaded under it. A name gives an identity exactly when it ends
  with \<open>.csv\<close> and the pattern of line 128 matches at its start: the whitespace around
  the two hyphens and before \<open>Stats.csv\<close> may have any length, none included, and any
  text may follow \<open>Stats.csv\<close>. The task is the shortest text after which the rest
  matches, which never ends with whitespace, trimmed. An entry with an identity gets
  its three parts stored under the identity when its parse raises nothing, and only
  an error line printed when it raises. The name
  \<open>Close Range - Challenge - 2024.01.15-10.30.00 Stats.csv\<close> gives the identity
  \<open>(Close Range, 2024.01.15-10.30.00)\<close>, and \<open>random_notes.csv\<close> gives none.
\<close>

theorem candidate_selection:
  "process_entry pd w csv_dir st filename
     = (case candidate filename of
          None \<Rightarrow> st
        | Some (task, date) \<Rightarrow>
            load_file pd w filename (path_join csv_dir filename) task date st)
   \<and> (candidate filename = Some (task, date) \<longleftrightarrow>
        endswith filename ''.csv'' \<and> (\<exists>g1. lazy_match filename g1 date \<and> task = strip g1))
   \<and> (lazy_match filename g1 date \<longrightarrow> rstrip g1 = g1)
   \<and> (shaped st \<and> candidate filename = Some (task, date) \<longrightarrow>
        (case fst (parse_kovaaks_csv pd w (path_join csv_dir filename)) of
           Inl e \<Rightarrow>
             process_entry pd w csv_dir st filename
               = st\<lparr>printed := printed st @ [ErrorProcessing filename e]\<rparr>
         | Inr r \<Rightarrow>
             lookup2 (main_data (process_entry pd w csv_dir st filename)) task date
               = Some (fst r)
             \<and> lookup2 (weapon_data (process_entry pd w csv_dir st filename)) task date
               = Some (fst (snd r))
             \<and> lookup2 (stats_data (process_entry pd w csv_dir st filename)) task date
               = Some (snd (snd r))))
   \<and> candidate ''Close Range - Challenge - 2024.01.15-10.30.00 Stats.csv''
       = Some (''Close Range'', ''2024.01.15-10.30.00'')
   \<and> candidate ''random_notes.csv'' = None"
proof -
  have 1: "process_entry pd w csv_dir st filename
     = (case candidate filename of
          None \<Rightarrow> st
        | Some (task, date) \<Rightarrow>
            load_file pd w filename (path_join csv_dir filename) task date st)"
    by (rule process_entry_candidate)
  have 2: "candidate filename = Some (task, date) \<longleftrightarrow>
        endswith filename ''.csv'' \<and> (\<exists>g1. lazy_match filename g1 date \<and> task = strip g1)"
    by (rule candidate_lazy)
  have 3: "lazy_match filename g1 date \<longrightarrow> rstrip g1 = g1"
    using lazy_match_trimmed by blast
  have 4: "shaped st \<and> candidate filename = Some (task, date) \<longrightarrow>
        (case fst (parse_kovaaks_csv pd w (path_join csv_dir filename)) of
           Inl e \<Rightarrow>
             process_entry pd w csv_dir st filename
               = st\<lparr>printed := printed st @ [ErrorProcessing filename e]\<rparr>
         | Inr r \<Rightarrow>
             lookup2 (main_data (process_entry pd w csv_dir st filename)) task date
               = Some (fst r)
             \<and> lookup2 (weapon_data (process_entry pd w csv_dir st filename)) task date
               = Some (fst (snd r))
             \<and> lookup2 (stats_data (process_entry pd w csv_dir st filename)) task date
               = Some (snd (snd r)))"
  proof
    assume a: "shaped st \<and> candidate filename = Some (task, date)"
    then have p: "process_entry pd w csv_dir st filename
        = load_file pd w filename (path_join csv_dir filename) task date st"
      by (simp add: process_entry_candidate)
    show "case fst (parse_kovaaks_csv pd w (path_join csv_dir filename)) of
           Inl e \<Rightarrow>
             process_entry pd w csv_dir st filename
               = st\<lparr>printed := printed st @ [ErrorProcessing filename e]\<rparr>
         | Inr r \<Rightarrow>
             lookup2 (main_data (process_entry pd w csv_dir st filename)) task date
               = Some (fst r)
             \<and> lookup2 (weapon_data (process_entry pd w csv_dir st filename)) task date
               = Some (fst (snd r))
             \<and> lookup2 (stats_data (process_entry pd w csv_dir st filename)) task date
               = Some (snd (snd r))"
    proof (cases "fst (parse_kovaaks_csv pd w (path_join csv_dir filename))")
      case (Inl e)
      then show ?thesis by (simp add: p load_file_raises report_eq)
    next
      case (Inr r)
      obtain m wd s where r: "r = (m, wd, s)" by (cases r)
      from a have "shaped st" by blast
      from load_file_parsed [OF this, of pd w "path_join csv_dir filename" m wd s filename task date]
        Inr r
      show ?thesis by (simp add: p)
    qed
  qed
  have 5: "candidate ''Close Range - Challenge - 2024.01.15-10.30.00 Stats.csv''
       = Some (''Close Range'', ''2024.01.15-10.30.00'')" by code_simp
  have 6: "candidate ''random_notes.csv'' = None" by code_simp
  from 1 2 3 4 5 6 show ?thesis by blast
qed

theorem candidate_selection_witness:
  "lookup2 (main_data (process_entry plain_pandas sample_world ''stats'' initial
       ''A - Challenge - 2024.01.15-10.30.00 Stats.csv''))
     ''A'' ''2024.01.15-10.30.00'' = Some \<lparr>columns = [''h''], rows = []\<rparr>
   \<and> rstrip ''A'' = ''A''"
proof -
  have c: "candidate ''A - Challenge - 2024.01.15-10.30.00 Stats.csv''
      = Some (''A'', ''2024.01.15-10.30.00'')" by code_simp
  have p: "fst (parse_kovaaks_csv plain_pandas sample_world
        (path_join ''stats'' ''A - Challenge - 2024.01.15-10.30.00 Stats.csv''))
      = Inr (\<lparr>columns = [''h''], rows = []\<rparr>,
             \<lparr>columns = [''Weapon'', ''x''], rows = [[Some ''p'', Some ''1'']]\<rparr>,
             [(''Kills'', VInt 3)])" by code_simp
  have "re_match ''A - Challenge - 2024.01.15-10.30.00 Stats.csv''
      = Some (''A'', ''2024.01.15-10.30.00'')" by code_simp
  then have l: "lazy_match ''A - Challenge - 2024.01.15-10.30.00 Stats.csv'' ''A''
      ''2024.01.15-10.30.00''" by (simp only: re_match_lazy)
  note t = candidate_selection [where pd = plain_pandas and w = sample_world
      and csv_dir = "''stats''" and st = initial
      and filename = "''A - Challenge - 2024.01.15-10.30.00 Stats.csv''"
      and task = "''A''" and date = "''2024.01.15-10.30.00''" and ?g1.0 = "''A''"]
  from t [THEN conjunct2, THEN conjunct2, THEN conjunct1] l
  have 1: "rstrip ''A'' = ''A''" by (rule mp)
  from t [THEN conjunct2, THEN conjunct2, THEN conjunct2, THEN conjunct1] shaped_initial c
  have "case fst (parse_kovaaks_csv plain_pandas sample_world
        (path_join ''stats'' ''A - Challenge - 2024.01.15-10.30.00 Stats.csv'')) of
      Inl e \<Rightarrow> process_entry plain_pandas sample_world ''stats'' initial
          ''A - Challenge - 2024.01.15-10.30.00 Stats.csv''
        = initial\<lparr>printed := printed initial
            @ [ErrorProcessing ''A - Challenge - 2024.01.15-10.30.00 Stats.csv'' e]\<rparr>
    | Inr r \<Rightarrow>
        lookup2 (main_data (process_entry plain_pandas sample_world ''stats'' initial
          ''A - Challenge - 2024.01.15-10.30.00 Stats.csv'')) ''A'' ''2024.01.15-10.30.00''
          = Some (fst r)
        \<and> lookup2 (weapon_data (process_entry plain_pandas sample_world ''stats'' initial
          ''A - Challenge - 2024.01.15-10.30.00 Stats.csv'')) ''A'' ''2024.01.15-10.30.00''
          = Some (fst (snd r))
        \<and> lookup2 (stats_data (process_entry plain_pandas sample_world ''stats'' initial
          ''A - Challenge - 2024.01.15-10.30.00 Stats.csv'')) ''A'' ''2024.01.15-10.30.00''
          = Some (snd (snd r))"
    by blast
  then have 2: "lookup2 (main_data (process_entry plain_pandas sample_world ''stats'' initial
       ''A - Challenge - 2024.01.15-10.30.00 Stats.csv''))
     ''A'' ''2024.01.15-10.30.00'' = Some \<lparr>columns = [''h''], rows = []\<rparr>"
    by (simp only: p sum.case fst_conv)
  from 1 2 show ?thesis by blast
qed

text \<open>
  C3 as the spec states it fails: the name \<open>A-Challenge-2024.01.15-10.30.00Stats.csv\<close>
  does not have the form of the spec's pattern, and yet its file is loaded under the
  identity \<open>(A, 2024.01.15-10.30.00)\<close>.
\<close>

theorem candidate_selection_counterexample:
  "\<not> spec_filename_form ''A-Challenge-2024.01.15-10.30.00Stats.csv''
   \<and> load_all_kovaaks_data plain_pandas unspaced_world ''stats''
     = Inr ((\<lparr>default_factory = Some \<lparr>default_factory = Some empty_frame, entries = []\<rparr>,
               entries = [(''A'', \<lparr>default_factory = Some empty_frame,
                    entries = [(''2024.01.15-10.30.00'', empty_frame)]\<rparr>)]\<rparr>,
             \<lparr>default_factory = Some \<lparr>default_factory = Some empty_frame, entries = []\<rparr>,
               entries = [(''A'', \<lparr>default_factory = Some empty_frame,
                    entries = [(''2024.01.15-10.30.00'', empty_frame)]\<rparr>)]\<rparr>,
             \<lparr>default_factory = Some \<lparr>default_factory = Some [], entries = []\<rparr>,
               entries = [(''A'', \<lparr>default_factory = Some [],
                    entries = [(''2024.01.15-10.30.00'', [(''Kills'', VInt 1)])]\<rparr>)]\<rparr>),
            [TotalProcessed 1, UniqueTasks 1])"
proof -
  have "\<not> spec_filename_form ''A-Challenge-2024.01.15-10.30.00Stats.csv''"
  proof
    assume "spec_filename_form ''A-Challenge-2024.01.15-10.30.00Stats.csv''"
    then obtain task ts where
      "''A-Challenge-2024.01.15-10.30.00Stats.csv'' = task @ '' - Challenge - '' @ ts @ '' Stats.csv''"
      unfolding spec_filename_form_def by blast
    then have "set ''A-Challenge-2024.01.15-10.30.00Stats.csv''
        = set (task @ '' - Challenge - '' @ ts @ '' Stats.csv'')" by simp
    then have "CHR '' '' \<in> set ''A-Challenge-2024.01.15-10.30.00Stats.csv''" by simp
    then show False by simp
  qed
  moreover have "load_all_kovaaks_data plain_pandas unspaced_world ''stats''
     = Inr ((\<lparr>default_factory = Some \<lparr>default_factory = Some empty_frame, entries = []\<rparr>,
               entries = [(''A'', \<lparr>default_factory = Some empty_frame,
                    entries = [(''2024.01.15-10.30.00'', empty_frame)]\<rparr>)]\<rparr>,
             \<lparr>default_factory = Some \<lparr>default_factory = Some empty_frame, entries = []\<rparr>,
               entries = [(''A'', \<lparr>default_factory = Some empty_frame,
                    entries = [(''2024.01.15-10.30.00'', empty_frame)]\<rparr>)]\<rparr>,
             \<lparr>default_factory = Some \<lparr>default_factory = Some [], entries = []\<rparr>,
               entries = [(''A'', \<lparr>default_factory = Some [],
                    entries = [(''2024.01.15-10.30.00'', [(''Kills'', VInt 1)])]\<rparr>)]\<rparr>),
            [TotalProcessed 1, UniqueTasks 1])"
    by code_simp
  ultimately show ?thesis by blast
qed

end
